theory Spec2Isabelle
  imports Main
begin

section \<open>The scheduled-merge workflow of gh-pr-scheduler (src/main.go)\<close>

text \<open>
  The program is a Bubble Tea application: one \<open>Update\<close> function receives a message
  (a clock tick, the result of an asynchronous \<open>gh\<close> call, a key press) together with the
  model, and returns the new model and the commands to run next. The embedding follows
  that shape: \<open>Update\<close> is a function from a message and a model to either a panic or a
  pair of the new model and the list of commands issued (\<open>tea.Batch\<close> is the list,
  \<open>nil\<close> the empty list).
\<close>

subsection \<open>Time\<close>

text \<open>
  A \<open>time.Time\<close> is an instant, here the number of nanoseconds since Go's zero time
  (January 1, year 1, 00:00:00 UTC); a \<open>time.Duration\<close> is a number of nanoseconds.
  Only \<open>IsZero\<close>, \<open>After\<close> and \<open>Add\<close> are used by the workflow. Go compares two instants
  on a single time line (wall clock or monotonic reading); the instants handled by the
  program lie in the years 0..9999 or near the current date, far from the ends of Go's
  representable range, so the sum in \<open>Add\<close> is the mathematical one.
\<close>

type_synonym time = int
type_synonym duration = int

definition IsZero :: "time \<Rightarrow> bool" where
  "IsZero t = (t = 0)"

definition After :: "time \<Rightarrow> time \<Rightarrow> bool" where
  \<comment> \<open>\<open>t.After(u)\<close>\<close>
  "After t u = (u < t)"

definition Add :: "time \<Rightarrow> duration \<Rightarrow> time" where
  "Add t d = t + d"

definition Second :: duration where "Second = 1000000000"
definition Minute :: duration where "Minute = 60 * Second"
definition Hour :: duration where "Hour = 60 * Minute"

definition RFC3339 :: string where
  "RFC3339 = ''2006-01-02T15:04:05Z07:00''"

subsection \<open>Formatting of integers and booleans\<close>

text \<open>The decimal digits of a number that is not negative, most significant first.\<close>

function digitsOf :: "int \<Rightarrow> string" where
  "digitsOf n =
     (if n < 10 then [''0123456789'' ! nat n]
      else digitsOf (n div 10) @ [''0123456789'' ! nat (n mod 10)])"
  by pat_completeness auto
termination
  by (relation "measure nat") auto

declare digitsOf.simps [simp del]

definition Itoa :: "int \<Rightarrow> string" where
  \<comment> \<open>\<open>strconv.Itoa\<close>, and the verb \<open>%d\<close> of \<open>fmt.Sprintf\<close>\<close>
  "Itoa i = (if i < 0 then CHR ''-'' # digitsOf (- i) else digitsOf i)"

definition showBool :: "bool \<Rightarrow> string" where
  \<comment> \<open>the verb \<open>%v\<close> on a bool\<close>
  "showBool b = (if b then ''true'' else ''false'')"

subsection \<open>Data types\<close>

record pr =
  Number :: int
  Title :: string
  Author :: string
  State :: string
  MergeState :: string
  URL :: string

record timePreset =
  Label :: string
  Description :: string
  IsCustom :: bool
  Duration :: duration

text \<open>The two kinds of \<open>list.Item\<close> the program stores in a \<open>list.Model\<close>.\<close>

datatype item = prItem pr | timePresetItem timePreset

record scheduledMerge =
  PR :: pr
  When :: time
  PreMergeCommentPosted :: bool
  MergeTriggered :: bool
  CheckScheduled :: bool
  CheckAt :: time
  FailureHandled :: bool
  Done :: bool
  LastMessage :: string

subsection \<open>Messages and commands\<close>

text \<open>
  An \<open>error\<close> value of Go is \<open>None\<close> for \<open>nil\<close> and \<open>Some s\<close> for an error whose
  \<open>Error()\<close> text is \<open>s\<close>. A key message carries its \<open>Type\<close> and the text its \<open>String()\<close>
  method returns. \<open>OtherMsg\<close> stands for any message type the switch of \<open>Update\<close> does not
  name (it reaches the \<open>default\<close> branch).
\<close>

datatype keyType = KeyEnter | KeyEsc | KeyRunes | KeyCode int

datatype msg =
    WindowSizeMsg int int
  | meMsg string
  | prListMsg "pr list"
  | errMsg string
  | tickMsg time
  | mergeResultMsg int "string option"
  | checkMergedMsg int bool "string option"
  | commentResultMsg int bool "string option"
  | disableAutoMergeResultMsg int "string option"
  | commitSHAMsg int string "string option"
  | KeyMsg keyType string
  | OtherMsg nat

text \<open>
  The commands the program can issue. \<open>notifySend\<close> is the \<open>notify-send\<close> process that the
  handler of \<open>commitSHAMsg\<close> runs inline before it returns; it is listed with the commands
  of that step, in first position. \<open>LibCmd\<close> is a command returned by the \<open>Update\<close> of a
  Bubble Tea component.
\<close>

datatype cmd =
    fetchMeCmd
  | fetchPRsCmd
  | tickCmd
  | mergePRCmd int
  | commentPRCmd int string bool
  | disableAutoMergeCmd int
  | getCommitSHACmd int
  | checkMergedCmd int
  | Quit
  | notifySend string string
  | LibCmd nat

datatype mode = modeListing | modeTimePicker | modeScheduling

subsection \<open>The model, and the library it is built on\<close>

text \<open>
  \<open>list.Model\<close> and \<open>textinput.Model\<close> belong to the Bubbles library, and the string and time
  functions to Go's standard library; none of them is code of this repository. Their states
  are the type parameters \<open>'l\<close> and \<open>'i\<close>, and their operations are the fields of the record
  \<open>lib\<close>, a parameter of every function below. The \<open>Update\<close> of a component returns its new
  state and the commands of the component, each an opaque number wrapped in \<open>LibCmd\<close>.
\<close>

record ('l, 'i) model =
  width :: int
  height :: int
  mlist :: 'l
  timePicker :: 'l
  prs :: "pr list"
  onlyMine :: bool
  me :: string
  status :: string
  lastErr :: "string option"
  mode :: mode
  input :: 'i
  schedFor :: "pr option"
  scheduled :: "scheduledMerge list"
  now :: time
  quitWarned :: bool

record ('l, 'i) lib =
  list_New :: "string \<Rightarrow> item list \<Rightarrow> 'l"
  list_SetSize :: "int \<Rightarrow> int \<Rightarrow> 'l \<Rightarrow> 'l"
  list_SetItems :: "item list \<Rightarrow> 'l \<Rightarrow> 'l"
  list_SelectedItem :: "'l \<Rightarrow> item option"
  list_Update :: "msg \<Rightarrow> 'l \<Rightarrow> 'l \<times> nat list"
  input_New :: 'i
  input_Value :: "'i \<Rightarrow> string"
  input_SetValue :: "string \<Rightarrow> 'i \<Rightarrow> 'i"
  input_CursorEnd :: "'i \<Rightarrow> 'i"
  input_Focus :: "'i \<Rightarrow> 'i"
  input_Blur :: "'i \<Rightarrow> 'i"
  input_Update :: "msg \<Rightarrow> 'i \<Rightarrow> 'i \<times> nat list"
  strings_TrimSpace :: "string \<Rightarrow> string"
  strings_ToLower :: "string \<Rightarrow> string"
  time_Format :: "string \<Rightarrow> time \<Rightarrow> string"
  time_ParseInLocation :: "string \<Rightarrow> string \<Rightarrow> string + time"

datatype error = NilPointerDereference

subsection \<open>Init\<close>

definition getTimePresets :: "item list" where
  "getTimePresets = map timePresetItem
     [\<lparr>Label = ''Now'', Description = ''Merge immediately'', IsCustom = False, Duration = 0\<rparr>,
      \<lparr>Label = ''In 1 minute'', Description = ''Merge in 1 minute'', IsCustom = False, Duration = 1 * Minute\<rparr>,
      \<lparr>Label = ''In 2 minutes'', Description = ''Merge in 2 minutes'', IsCustom = False, Duration = 2 * Minute\<rparr>,
      \<lparr>Label = ''In 5 minutes'', Description = ''Merge in 5 minutes'', IsCustom = False, Duration = 5 * Minute\<rparr>,
      \<lparr>Label = ''In 15 minutes'', Description = ''Merge in 15 minutes'', IsCustom = False, Duration = 15 * Minute\<rparr>,
      \<lparr>Label = ''In 30 minutes'', Description = ''Merge in 30 minutes'', IsCustom = False, Duration = 30 * Minute\<rparr>,
      \<lparr>Label = ''In 1 hour'', Description = ''Merge in 1 hour'', IsCustom = False, Duration = 1 * Hour\<rparr>,
      \<lparr>Label = ''In 2 hours'', Description = ''Merge in 2 hours'', IsCustom = False, Duration = 2 * Hour\<rparr>,
      \<lparr>Label = ''In 4 hours'', Description = ''Merge in 4 hours'', IsCustom = False, Duration = 4 * Hour\<rparr>,
      \<lparr>Label = ''In 8 hours'', Description = ''Merge in 8 hours'', IsCustom = False, Duration = 8 * Hour\<rparr>,
      \<lparr>Label = ''In 12 hours'', Description = ''Merge in 12 hours'', IsCustom = False, Duration = 12 * Hour\<rparr>,
      \<lparr>Label = ''In 24 hours'', Description = ''Merge tomorrow at this time'', IsCustom = False, Duration = 24 * Hour\<rparr>,
      \<lparr>Label = ''Custom time...'', Description = ''Enter a custom date/time'', IsCustom = True, Duration = 0\<rparr>]"

definition initialModel :: "('l, 'i) lib \<Rightarrow> time \<Rightarrow> ('l, 'i) model" where
  \<comment> \<open>the second argument is the value of \<open>time.Now()\<close>\<close>
  "initialModel L t0 =
     \<lparr>width = 0, height = 0,
      mlist = list_New L ''Open pull requests'' [],
      timePicker = list_New L ''When to merge?'' getTimePresets,
      prs = [], onlyMine = False, me = [], status = ''Loading...'', lastErr = None,
      mode = modeListing, input = input_New L, schedFor = None, scheduled = [],
      now = t0, quitWarned = False\<rparr>"

definition Init :: "cmd list" where
  "Init = [fetchMeCmd, fetchPRsCmd, tickCmd]"

subsection \<open>Helpers\<close>

definition applyFilter :: "('l, 'i) lib \<Rightarrow> ('l, 'i) model \<Rightarrow> ('l, 'i) model" where
  "applyFilter L m =
     (let filtered = (if onlyMine m \<and> me m \<noteq> [] then filter (\<lambda>p. Author p = me m) (prs m)
                      else prs m)
      in m\<lparr>mlist := list_SetItems L (map prItem filtered) (mlist m),
           status := Itoa (int (length filtered)) @ '' PRs (onlyMine='' @ showBool (onlyMine m) @ '')''\<rparr>)"

text \<open>The loop of \<open>findScheduledIndex\<close>, with the running index \<open>i\<close>.\<close>

fun findScheduledFrom :: "int \<Rightarrow> scheduledMerge list \<Rightarrow> int \<Rightarrow> int" where
  "findScheduledFrom i [] prNumber = - 1"
| "findScheduledFrom i (s # ss) prNumber =
     (if Number (PR s) = prNumber \<and> \<not> Done s then i
      else findScheduledFrom (i + 1) ss prNumber)"

definition findScheduledIndex :: "scheduledMerge list \<Rightarrow> int \<Rightarrow> int" where
  "findScheduledIndex ss prNumber = findScheduledFrom 0 ss prNumber"

fun hasActiveSchedules :: "scheduledMerge list \<Rightarrow> bool" where
  "hasActiveSchedules [] = False"
| "hasActiveSchedules (s # ss) = (if \<not> Done s then True else hasActiveSchedules ss)"

text \<open>
  \<open>m.scheduled[idx].f = v\<close> for an index returned by \<open>findScheduledIndex\<close>, which is in
  range whenever it is not negative.
\<close>

definition updateAt :: "int \<Rightarrow> (scheduledMerge \<Rightarrow> scheduledMerge) \<Rightarrow> scheduledMerge list \<Rightarrow> scheduledMerge list" where
  "updateAt idx f ss = ss[nat idx := f (ss ! nat idx)]"

definition newScheduledMerge :: "pr \<Rightarrow> time \<Rightarrow> scheduledMerge" where
  \<comment> \<open>\<open>scheduledMerge{PR: p, When: when, CheckAt: time.Time{}}\<close>: the other fields are zero\<close>
  "newScheduledMerge p when' =
     \<lparr>PR = p, When = when', PreMergeCommentPosted = False, MergeTriggered = False,
      CheckScheduled = False, CheckAt = 0, FailureHandled = False, Done = False,
      LastMessage = []\<rparr>"

subsection \<open>Update: the clock tick\<close>

text \<open>
  The body of the loop over \<open>m.scheduled\<close> in the \<open>tickMsg\<close> case, for one entry: the
  entry after the iteration and the commands appended to \<open>cmds\<close>.
\<close>

definition tickEntry :: "('l, 'i) lib \<Rightarrow> time \<Rightarrow> scheduledMerge \<Rightarrow> scheduledMerge \<times> cmd list" where
  "tickEntry L t s =
     (if Done s then (s, [])
      else
        let (s1, c1) =
              (if \<not> PreMergeCommentPosted s \<and> \<not> IsZero (When s) \<and> After t (When s)
               then (s\<lparr>PreMergeCommentPosted := True,
                        LastMessage := ''Posting pre-merge comment for PR #'' @ Itoa (Number (PR s))\<rparr>,
                     [commentPRCmd (Number (PR s))
                        (''Setting PR to auto-merge. Scheduled merge time: ''
                           @ time_Format L ''2006-01-02 15:04'' (When s))
                        True])
               else (s, []));
            (s2, c2) =
              (if MergeTriggered s1 \<and> \<not> CheckScheduled s1 \<and> \<not> IsZero (CheckAt s1)
                  \<and> After t (CheckAt s1)
               then (s1\<lparr>CheckScheduled := True,
                         LastMessage := ''Checking merge status for PR #'' @ Itoa (Number (PR s1))\<rparr>,
                     [checkMergedCmd (Number (PR s1))])
               else (s1, []))
        in (s2, c1 @ c2))"

fun tickLoop :: "('l, 'i) lib \<Rightarrow> time \<Rightarrow> scheduledMerge list \<Rightarrow> scheduledMerge list \<times> cmd list" where
  "tickLoop L t [] = ([], [])"
| "tickLoop L t (s # ss) =
     (let (s', c) = tickEntry L t s; (ss', cs) = tickLoop L t ss in (s' # ss', c @ cs))"

definition updateTick :: "('l, 'i) lib \<Rightarrow> time \<Rightarrow> ('l, 'i) model \<Rightarrow> ('l, 'i) model \<times> cmd list" where
  "updateTick L t m =
     (let (ss', cmds) = tickLoop L t (scheduled m)
      in (m\<lparr>now := t, scheduled := ss'\<rparr>, cmds @ [tickCmd]))"

subsection \<open>Update: the results of the asynchronous actions\<close>

definition updateMergeResult :: "('l, 'i) lib \<Rightarrow> int \<Rightarrow> string option \<Rightarrow> ('l, 'i) model \<Rightarrow> ('l, 'i) model \<times> cmd list" where
  "updateMergeResult L prNumber err m =
     (let idx = findScheduledIndex (scheduled m) prNumber in
      if idx \<ge> 0 then
        (case err of
           Some e \<Rightarrow>
             (let msg' = ''Auto-merge failed: '' @ e in
              (m\<lparr>scheduled := updateAt idx (\<lambda>s. s\<lparr>Done := True, LastMessage := msg'\<rparr>) (scheduled m),
                 status := msg'\<rparr>, []))
         | None \<Rightarrow>
             (let checkAt = Add (now m) (1 * Minute) in
              (m\<lparr>scheduled := updateAt idx
                    (\<lambda>s. s\<lparr>CheckAt := checkAt,
                           LastMessage := ''Auto-merge set, will check in 1 minute''\<rparr>) (scheduled m),
                 status := ''PR #'' @ Itoa prNumber @ '': auto-merge set; check at ''
                             @ time_Format L RFC3339 checkAt\<rparr>, [])))
      else (m, []))"

definition updateCheckMerged :: "int \<Rightarrow> bool \<Rightarrow> string option \<Rightarrow> ('l, 'i) model \<Rightarrow> ('l, 'i) model \<times> cmd list" where
  "updateCheckMerged prNumber merged err m =
     (let idx = findScheduledIndex (scheduled m) prNumber in
      if idx \<ge> 0 then
        (case err of
           Some e \<Rightarrow>
             (let msg' = ''Check failed: '' @ e in
              (m\<lparr>scheduled := updateAt idx (\<lambda>s. s\<lparr>Done := True, LastMessage := msg'\<rparr>) (scheduled m),
                 status := ''PR #'' @ Itoa prNumber @ '': '' @ msg'\<rparr>, []))
         | None \<Rightarrow>
             if merged then
               (let msg' = ''PR is merged'' in
                (m\<lparr>scheduled := updateAt idx (\<lambda>s. s\<lparr>Done := True, LastMessage := msg'\<rparr>) (scheduled m),
                   status := ''PR #'' @ Itoa prNumber @ '': '' @ msg'\<rparr>, []))
             else
               (let msg' = ''PR not merged, fetching commit SHA...'' in
                (m\<lparr>scheduled := updateAt idx (\<lambda>s. s\<lparr>LastMessage := msg'\<rparr>) (scheduled m),
                   status := ''PR #'' @ Itoa prNumber @ '': '' @ msg'\<rparr>,
                 [getCommitSHACmd prNumber])))
      else (m, []))"

definition failureComment :: "string \<Rightarrow> string" where
  "failureComment sha =
     ''Auto-merge did not complete successfully. Disabling auto-merge.'' @ [CHR 0x0A, CHR 0x0A]
       @ ''Current commit: '' @ sha"

definition updateCommitSHA :: "int \<Rightarrow> string \<Rightarrow> string option \<Rightarrow> ('l, 'i) model \<Rightarrow> ('l, 'i) model \<times> cmd list" where
  "updateCommitSHA prNumber sha0 err m =
     (let idx = findScheduledIndex (scheduled m) prNumber in
      if idx \<ge> 0 then
        (let sha = (case err of Some e \<Rightarrow> ''unknown'' | None \<Rightarrow> sha0);
             msg' = ''Disabling auto-merge and posting failure comment...'';
             notifyBody = ''PR #'' @ Itoa prNumber @ '' ('' @ Title (PR (scheduled m ! nat idx))
                            @ '') is still not merged after auto-merge.''
         in (m\<lparr>scheduled := updateAt idx (\<lambda>s. s\<lparr>FailureHandled := True, LastMessage := msg'\<rparr>) (scheduled m),
               status := ''PR #'' @ Itoa prNumber @ '': '' @ msg'\<rparr>,
             [notifySend ''PR not merged'' notifyBody,
              disableAutoMergeCmd prNumber,
              commentPRCmd prNumber (failureComment sha) False]))
      else (m, []))"

definition updateCommentResult :: "int \<Rightarrow> bool \<Rightarrow> string option \<Rightarrow> ('l, 'i) model \<Rightarrow> ('l, 'i) model \<times> cmd list" where
  "updateCommentResult prNumber isPreMerge err m =
     (let idx = findScheduledIndex (scheduled m) prNumber in
      if idx \<ge> 0 then
        if isPreMerge then
          (let msg' = (case err of
                         Some e \<Rightarrow> ''Comment failed: '' @ e @ '' (continuing with merge)''
                       | None \<Rightarrow> ''Pre-merge comment posted, triggering auto-merge...'')
           in (m\<lparr>scheduled := updateAt idx (\<lambda>s. s\<lparr>LastMessage := msg', MergeTriggered := True\<rparr>) (scheduled m),
                 status := ''PR #'' @ Itoa prNumber @ '': '' @ msg'\<rparr>,
               [mergePRCmd prNumber]))
        else
          (let msg' = (case err of
                         Some e \<Rightarrow> ''PR not merged (failure comment failed: '' @ e @ '')''
                       | None \<Rightarrow> ''PR not merged (auto-merge disabled, notification sent)'')
           in (m\<lparr>scheduled := updateAt idx (\<lambda>s. s\<lparr>Done := True, LastMessage := msg'\<rparr>) (scheduled m),
                 status := ''PR #'' @ Itoa prNumber @ '': '' @ msg'\<rparr>, []))
      else (m, []))"

definition updateDisableAutoMergeResult :: "int \<Rightarrow> string option \<Rightarrow> ('l, 'i) model \<Rightarrow> ('l, 'i) model \<times> cmd list" where
  "updateDisableAutoMergeResult prNumber err m =
     (let idx = findScheduledIndex (scheduled m) prNumber in
      if idx \<ge> 0 then
        (case err of
           Some e \<Rightarrow>
             (m\<lparr>scheduled := updateAt idx
                   (\<lambda>s. s\<lparr>LastMessage := ''Failed to disable auto-merge: '' @ e\<rparr>) (scheduled m)\<rparr>, [])
         | None \<Rightarrow> (m, []))
      else (m, []))"

subsection \<open>Update: the keys\<close>

definition updateListingKey :: "('l, 'i) lib \<Rightarrow> keyType \<Rightarrow> string \<Rightarrow> ('l, 'i) model \<Rightarrow> ('l, 'i) model \<times> cmd list" where
  "updateListingKey L k str m =
     (if str = ''q'' \<or> str = ''ctrl+c'' then
        (if hasActiveSchedules (scheduled m) \<and> \<not> quitWarned m
         then (m\<lparr>quitWarned := True,
                  status := ''Warning: Active scheduled merges! Press 'q' again to force quit.''\<rparr>, [])
         else (m, [Quit]))
      else if str = ''m'' then
        (applyFilter L (m\<lparr>quitWarned := False, onlyMine := \<not> onlyMine m\<rparr>), [])
      else if str = ''r'' then
        (m\<lparr>quitWarned := False, status := ''Refreshing PR list...''\<rparr>, [fetchPRsCmd])
      else if str = ''enter'' then
        (let m1 = m\<lparr>quitWarned := False\<rparr> in
         case list_SelectedItem L (mlist m1) of
           Some (prItem p) \<Rightarrow>
             if findScheduledIndex (scheduled m1) (Number p) \<ge> 0
             then (m1\<lparr>status := ''PR #'' @ Itoa (Number p) @ '' already has a scheduled merge''\<rparr>, [])
             else (m1\<lparr>schedFor := Some p, mode := modeTimePicker,
                      status := ''Select merge time for PR #'' @ Itoa (Number p)\<rparr>, [])
         | _ \<Rightarrow> (m1, []))
      else
        (let (l', c) = list_Update L (KeyMsg k str) (mlist m)
         in (m\<lparr>quitWarned := False, mlist := l'\<rparr>, map LibCmd c)))"

text \<open>
  \<open>updateTimePickerKey\<close> reads \<open>m.schedFor.Number\<close> without a nil check when the custom
  preset is chosen: with no PR selected this is a nil pointer dereference, the only panic of
  \<open>Update\<close>.
\<close>

definition updateTimePickerKey :: "('l, 'i) lib \<Rightarrow> keyType \<Rightarrow> string \<Rightarrow> ('l, 'i) model \<Rightarrow> error + ('l, 'i) model \<times> cmd list" where
  "updateTimePickerKey L k str m =
     (if str = ''enter'' then
        (case list_SelectedItem L (timePicker m) of
           Some (timePresetItem preset) \<Rightarrow>
             if IsCustom preset then
               (case schedFor m of
                  None \<Rightarrow> Inl NilPointerDereference
                | Some p \<Rightarrow>
                    Inr (m\<lparr>input := input_Focus L (input_CursorEnd L (input_SetValue L [] (input m))),
                           mode := modeScheduling,
                           status := ''Enter custom time for PR #'' @ Itoa (Number p)\<rparr>, []))
             else
               (let when' = Add (now m) (Duration preset) in
                case schedFor m of
                  None \<Rightarrow> Inr (m\<lparr>status := ''No PR selected to schedule.'', mode := modeListing\<rparr>, [])
                | Some p \<Rightarrow>
                    Inr (m\<lparr>scheduled := scheduled m @ [newScheduledMerge p when'],
                           status := ''Scheduled auto-merge for PR #'' @ Itoa (Number p) @ '' at ''
                                       @ time_Format L ''2006-01-02 15:04'' when',
                           mode := modeListing,
                           schedFor := None\<rparr>, []))
         | _ \<Rightarrow> Inr (m, []))
      else if str = ''esc'' \<or> str = ''q'' then
        Inr (m\<lparr>mode := modeListing, status := ''Scheduling cancelled'', schedFor := None\<rparr>, [])
      else
        (let (l', c) = list_Update L (KeyMsg k str) (timePicker m)
         in Inr (m\<lparr>timePicker := l'\<rparr>, map LibCmd c)))"

definition updateSchedulingKey :: "('l, 'i) lib \<Rightarrow> keyType \<Rightarrow> string \<Rightarrow> ('l, 'i) model \<Rightarrow> ('l, 'i) model \<times> cmd list" where
  "updateSchedulingKey L k str m =
     (case k of
        KeyEnter \<Rightarrow>
          (let raw = strings_TrimSpace L (input_Value L (input m));
               parsed = (if raw = [] \<or> strings_ToLower L raw = ''now'' then Inr (now m)
                         else time_ParseInLocation L ''2006-01-02 15:04'' raw)
           in case parsed of
                Inl e \<Rightarrow> (m\<lparr>status := ''Invalid time format. Use YYYY-MM-DD HH:MM or 'now'.''\<rparr>, [])
              | Inr when' \<Rightarrow>
                  (case schedFor m of
                     None \<Rightarrow>
                       (m\<lparr>status := ''No PR selected to schedule.'', mode := modeListing,
                          input := input_Blur L (input m)\<rparr>, [])
                   | Some p \<Rightarrow>
                       (m\<lparr>scheduled := scheduled m @ [newScheduledMerge p when'],
                          status := ''Scheduled auto-merge for PR #'' @ Itoa (Number p) @ '' at ''
                                      @ time_Format L ''2006-01-02 15:04'' when',
                          mode := modeListing,
                          input := input_Blur L (input m),
                          schedFor := None\<rparr>, [])))
      | KeyEsc \<Rightarrow>
          (m\<lparr>mode := modeTimePicker, input := input_Blur L (input m),
             status := ''Back to time selection''\<rparr>, [])
      | _ \<Rightarrow>
          (let (i', c) = input_Update L (KeyMsg k str) (input m)
           in (m\<lparr>input := i'\<rparr>, map LibCmd c)))"

subsection \<open>Update\<close>

fun Update :: "('l, 'i) lib \<Rightarrow> msg \<Rightarrow> ('l, 'i) model \<Rightarrow> error + ('l, 'i) model \<times> cmd list" where
  "Update L (WindowSizeMsg w h) m =
     Inr (m\<lparr>width := w, height := h,
            mlist := list_SetSize L w (h - 5) (mlist m),
            timePicker := list_SetSize L w (h - 5) (timePicker m)\<rparr>, [])"
| "Update L (meMsg login) m =
     Inr (applyFilter L (m\<lparr>me := login, status := ''Loaded GitHub user: '' @ login\<rparr>), [])"
| "Update L (prListMsg ps) m = Inr (applyFilter L (m\<lparr>prs := ps\<rparr>), [])"
| "Update L (errMsg e) m = Inr (m\<lparr>lastErr := Some e, status := ''Error: '' @ e\<rparr>, [])"
| "Update L (tickMsg t) m = Inr (updateTick L t m)"
| "Update L (mergeResultMsg prNumber err) m = Inr (updateMergeResult L prNumber err m)"
| "Update L (checkMergedMsg prNumber merged err) m = Inr (updateCheckMerged prNumber merged err m)"
| "Update L (commitSHAMsg prNumber sha err) m = Inr (updateCommitSHA prNumber sha err m)"
| "Update L (commentResultMsg prNumber isPreMerge err) m =
     Inr (updateCommentResult prNumber isPreMerge err m)"
| "Update L (disableAutoMergeResultMsg prNumber err) m =
     Inr (updateDisableAutoMergeResult prNumber err m)"
| "Update L (KeyMsg k str) m =
     (if mode m = modeScheduling then Inr (updateSchedulingKey L k str m)
      else if mode m = modeTimePicker then updateTimePickerKey L k str m
      else Inr (updateListingKey L k str m))"
| "Update L (OtherMsg x) m =
     (if mode m = modeScheduling then
        (let (i', c) = input_Update L (OtherMsg x) (input m) in Inr (m\<lparr>input := i'\<rparr>, map LibCmd c))
      else if mode m = modeTimePicker then
        (let (l', c) = list_Update L (OtherMsg x) (timePicker m)
         in Inr (m\<lparr>timePicker := l'\<rparr>, map LibCmd c))
      else
        (let (l', c) = list_Update L (OtherMsg x) (mlist m) in Inr (m\<lparr>mlist := l'\<rparr>, map LibCmd c)))"

subsection \<open>Runs\<close>

text \<open>
  The program handles one message at a time. \<open>run\<close> feeds a list of messages to \<open>Update\<close>,
  in order, and collects the commands of every step; a panic ends the run.
\<close>

fun run :: "('l, 'i) lib \<Rightarrow> msg list \<Rightarrow> ('l, 'i) model \<Rightarrow> error + ('l, 'i) model \<times> cmd list" where
  "run L [] m = Inr (m, [])"
| "run L (x # xs) m =
     (case Update L x m of
        Inl e \<Rightarrow> Inl e
      | Inr (m', c) \<Rightarrow>
          (case run L xs m' of
             Inl e \<Rightarrow> Inl e
           | Inr (m'', cs) \<Rightarrow> Inr (m'', c @ cs)))"

text \<open>The states the program can be in: those a run from the initial model ends in.\<close>

inductive reachable :: "('l, 'i) lib \<Rightarrow> ('l, 'i) model \<Rightarrow> bool" for L :: "('l, 'i) lib" where
  reachable_init: "reachable L (initialModel L t0)"
| reachable_step: "reachable L m \<Longrightarrow> Update L x m = Inr (m', c) \<Longrightarrow> reachable L m'"

section \<open>Notions used in the statements\<close>

text \<open>The PR numbers of the entries that are not \<open>Done\<close>, in the order of the list.\<close>

definition activeNumbers :: "scheduledMerge list \<Rightarrow> int list" where
  "activeNumbers ss = map (\<lambda>s. Number (PR s)) (filter (\<lambda>s. \<not> Done s) ss)"

text \<open>
  \<open>advances s s'\<close>: the entry \<open>s'\<close> is a later state of the entry \<open>s\<close>. The PR and the scheduled
  time are the same, no flag went back from true to false, and an entry that was \<open>Done\<close> is
  unchanged in every field.
\<close>

definition advances :: "scheduledMerge \<Rightarrow> scheduledMerge \<Rightarrow> bool" where
  "advances s s' =
     (PR s' = PR s \<and> When s' = When s
      \<and> (PreMergeCommentPosted s \<longrightarrow> PreMergeCommentPosted s')
      \<and> (MergeTriggered s \<longrightarrow> MergeTriggered s')
      \<and> (CheckScheduled s \<longrightarrow> CheckScheduled s')
      \<and> (FailureHandled s \<longrightarrow> FailureHandled s')
      \<and> (Done s \<longrightarrow> s' = s))"

text \<open>
  The stage of an entry, read from its flags, as a number that grows along the workflow:
  0 scheduled, 1 pre-merge comment issued, 2 merge issued, 3 check issued, 4 remediation
  issued, 5 terminal.
\<close>

definition stage :: "scheduledMerge \<Rightarrow> nat" where
  "stage s =
     (if Done s then 5
      else if FailureHandled s then 4
      else if CheckScheduled s then 3
      else if MergeTriggered s then 2
      else if PreMergeCommentPosted s then 1
      else 0)"

text \<open>
  The invariant of the registry: the active PR numbers are pairwise different, the PR being
  scheduled (if any) has no active entry, and outside the listing mode a PR is being
  scheduled.
\<close>

definition wellScheduled :: "('l, 'i) model \<Rightarrow> bool" where
  "wellScheduled m =
     (distinct (activeNumbers (scheduled m))
      \<and> (case schedFor m of
           None \<Rightarrow> mode m = modeListing
         | Some p \<Rightarrow> Number p \<notin> set (activeNumbers (scheduled m))))"

fun isKeyMsg :: "msg \<Rightarrow> bool" where
  "isKeyMsg (KeyMsg k str) = True"
| "isKeyMsg x = False"

text \<open>The PR a command is addressed to (the argument of the \<open>gh\<close> call), if any.\<close>

fun cmdPR :: "cmd \<Rightarrow> int option" where
  "cmdPR (mergePRCmd n) = Some n"
| "cmdPR (commentPRCmd n body isPreMerge) = Some n"
| "cmdPR (disableAutoMergeCmd n) = Some n"
| "cmdPR (getCommitSHACmd n) = Some n"
| "cmdPR (checkMergedCmd n) = Some n"
| "cmdPR c = None"

text \<open>The PR number carried by the result of an asynchronous action.\<close>

fun resultPR :: "msg \<Rightarrow> int option" where
  "resultPR (mergeResultMsg n err) = Some n"
| "resultPR (checkMergedMsg n merged err) = Some n"
| "resultPR (commentResultMsg n isPreMerge err) = Some n"
| "resultPR (disableAutoMergeResultMsg n err) = Some n"
| "resultPR (commitSHAMsg n sha err) = Some n"
| "resultPR x = None"

text \<open>
  \<open>sameButMessage s s'\<close>: the two entries agree on every field except, possibly,
  \<open>LastMessage\<close>.
\<close>

definition sameButMessage :: "scheduledMerge \<Rightarrow> scheduledMerge \<Rightarrow> bool" where
  "sameButMessage s s' = (s'\<lparr>LastMessage := LastMessage s\<rparr> = s)"

text \<open>
  \<open>waiting L n s x\<close>: the message \<open>x\<close> is one during which the entry \<open>s\<close> of PR \<open>n\<close> only
  waits. It is a tick at which no action of the entry is due, or the result of an action on
  another PR, or the result of disabling auto-merge (which only records a message), or a
  message that is not the result of an action.
\<close>

fun waiting :: "('l, 'i) lib \<Rightarrow> int \<Rightarrow> scheduledMerge \<Rightarrow> msg \<Rightarrow> bool" where
  "waiting L n s (tickMsg t) = (snd (tickEntry L t s) = [])"
| "waiting L n s (disableAutoMergeResultMsg k err) = True"
| "waiting L n s x = (resultPR x \<noteq> Some n)"

subsection \<open>A small instance of the library\<close>

text \<open>
  For running the model on concrete inputs: a list is its items and a cursor, moved by the
  keys \<open>up\<close>, \<open>down\<close> and \<open>end\<close>; a text input is its text, to which typed runes are appended.
  The string functions are the ASCII part of Go's; the parser knows two dates, Go's
  reference time and the first minute of year 1 read in UTC, and rejects the rest.
\<close>

definition asciiSpace :: "char \<Rightarrow> bool" where
  "asciiSpace c = (c \<in> set [CHR '' '', CHR 0x09, CHR 0x0A, CHR 0x0B, CHR 0x0C, CHR 0x0D])"

definition asciiTrimSpace :: "string \<Rightarrow> string" where
  "asciiTrimSpace str = rev (dropWhile asciiSpace (rev (dropWhile asciiSpace str)))"

definition asciiToLower :: "string \<Rightarrow> string" where
  "asciiToLower str =
     map (\<lambda>c. if (65 :: nat) \<le> of_char c \<and> of_char c \<le> (90 :: nat)
              then char_of (of_char c + (32 :: nat)) else c) str"

definition demoLib :: "(item list \<times> nat, string) lib" where
  "demoLib =
     \<lparr>list_New = (\<lambda>title items. (items, 0)),
      list_SetSize = (\<lambda>w h l. l),
      list_SetItems = (\<lambda>items l. (items, snd l)),
      list_SelectedItem = (\<lambda>l. if snd l < length (fst l) then Some (fst l ! snd l) else None),
      list_Update = (\<lambda>x l.
         (case x of
            KeyMsg k str \<Rightarrow>
              if str = ''down'' then (fst l, snd l + 1)
              else if str = ''up'' then (fst l, snd l - 1)
              else if str = ''end'' then (fst l, length (fst l) - 1)
              else l
          | _ \<Rightarrow> l, [])),
      input_New = [],
      input_Value = (\<lambda>v. v),
      input_SetValue = (\<lambda>str v. str),
      input_CursorEnd = (\<lambda>v. v),
      input_Focus = (\<lambda>v. v),
      input_Blur = (\<lambda>v. v),
      input_Update = (\<lambda>x v. (case x of KeyMsg KeyRunes str \<Rightarrow> v @ str | _ \<Rightarrow> v, [])),
      strings_TrimSpace = asciiTrimSpace,
      strings_ToLower = asciiToLower,
      time_Format = (\<lambda>layout t. Itoa t),
      time_ParseInLocation = (\<lambda>layout raw.
         if raw = ''2006-01-02 15:04'' then Inr 63271811040000000000
         else if raw = ''0001-01-01 00:00'' then Inr 0
         else Inl ''cannot parse'')\<rparr>"

definition demoPR :: pr where
  "demoPR = \<lparr>Number = 7, Title = ''Fix the parser'', Author = ''alice'', State = ''OPEN'',
             MergeState = ''CLEAN'', URL = ''https://example.org/pull/7''\<rparr>"

text \<open>The model a run ends in (the model it started from when the run panics).\<close>

definition afterRun :: "('l, 'i) lib \<Rightarrow> msg list \<Rightarrow> ('l, 'i) model \<Rightarrow> ('l, 'i) model" where
  "afterRun L xs m = (case run L xs m of Inr (m', c) \<Rightarrow> m' | Inl e \<Rightarrow> m)"

definition cmdsOfRun :: "('l, 'i) lib \<Rightarrow> msg list \<Rightarrow> ('l, 'i) model \<Rightarrow> cmd list" where
  "cmdsOfRun L xs m = (case run L xs m of Inr (m', c) \<Rightarrow> c | Inl e \<Rightarrow> [])"

subsection \<open>Concrete runs\<close>

text \<open>
  The PR list arrives, the user presses enter on the first PR and enter again on the first
  preset (\<open>Now\<close>): PR 7 is scheduled at the current time.
\<close>

definition demoScheduleNow :: "msg list" where
  "demoScheduleNow = [prListMsg [demoPR], KeyMsg KeyEnter ''enter'', KeyMsg KeyEnter ''enter'']"

definition demoScheduled :: "(item list \<times> nat, string) model" where
  "demoScheduled = afterRun demoLib demoScheduleNow (initialModel demoLib 1000)"

text \<open>The text of the custom time entry, trimmed: the variable \<open>raw\<close> of \<open>updateSchedulingKey\<close>.\<close>

definition rawInput :: "('l, 'i) lib \<Rightarrow> ('l, 'i) model \<Rightarrow> string" where
  "rawInput L m = strings_TrimSpace L (input_Value L (input m))"

text \<open>
  The user picks the first PR, moves to the last preset (\<open>Custom time...\<close>), confirms it and
  types a text into the input.
\<close>

definition demoTypeCustom :: "string \<Rightarrow> msg list" where
  "demoTypeCustom txt =
     [prListMsg [demoPR], KeyMsg KeyEnter ''enter'', KeyMsg (KeyCode 0) ''end'',
      KeyMsg KeyEnter ''enter'', KeyMsg KeyRunes txt]"

definition demoTyped :: "string \<Rightarrow> (item list \<times> nat, string) model" where
  "demoTyped txt = afterRun demoLib (demoTypeCustom txt) (initialModel demoLib 1000)"

text \<open>
  \<open>grows ss ss'\<close>: the list \<open>ss'\<close> is a later state of the list \<open>ss\<close>. No entry was removed or
  moved, and each entry of \<open>ss\<close> advanced.
\<close>

definition grows :: "scheduledMerge list \<Rightarrow> scheduledMerge list \<Rightarrow> bool" where
  "grows ss ss' = (length ss \<le> length ss' \<and> (\<forall>i<length ss. advances (ss ! i) (ss' ! i)))"

text \<open>
  PR 7 was scheduled at time 1000. The clock passes 1000, the pre-merge comment succeeds and
  the merge fails; later messages for the same PR follow.
\<close>

definition demoFailMerge :: "msg list" where
  "demoFailMerge =
     [tickMsg 2000, commentResultMsg 7 True None, mergeResultMsg 7 (Some ''gh pr merge failed'')]"

definition demoMergeFailed :: "(item list \<times> nat, string) model" where
  "demoMergeFailed = afterRun demoLib demoFailMerge demoScheduled"

definition demoLater :: "msg list" where
  "demoLater =
     [tickMsg 3000, mergeResultMsg 7 None, tickMsg 70000000000, checkMergedMsg 7 False None,
      commitSHAMsg 7 ''abc'' None, commentResultMsg 7 False None, KeyMsg KeyRunes ''r'']"

text \<open>
  \<open>beforeDue T n x\<close>: the message \<open>x\<close> can arrive while the entry of PR \<open>n\<close> waits for the time
  \<open>T\<close>. It is a tick that is not after \<open>T\<close>, or the result of an action on another PR, or the
  result of disabling auto-merge, or a message that is not the result of an action.
\<close>

fun beforeDue :: "time \<Rightarrow> int \<Rightarrow> msg \<Rightarrow> bool" where
  "beforeDue T n (tickMsg t) = (t \<le> T)"
| "beforeDue T n (disableAutoMergeResultMsg k err) = True"
| "beforeDue T n x = (resultPR x \<noteq> Some n)"

definition preMergeComment :: "('l, 'i) lib \<Rightarrow> scheduledMerge \<Rightarrow> cmd" where
  \<comment> \<open>the command the tick issues for an entry whose scheduled time has passed\<close>
  "preMergeComment L s =
     commentPRCmd (Number (PR s))
       (''Setting PR to auto-merge. Scheduled merge time: ''
          @ time_Format L ''2006-01-02 15:04'' (When s))
       True"

text \<open>
  The user types the first minute of year 1 as the custom time and confirms it: PR 7 is
  scheduled at Go's zero time.
\<close>

definition demoZero :: "(item list \<times> nat, string) model" where
  "demoZero = afterRun demoLib (demoTypeCustom ''0001-01-01 00:00'' @ [KeyMsg KeyEnter ''enter''])
                (initialModel demoLib 1000)"

text \<open>Messages that arrive while the entry of PR 7, scheduled at 1000, waits.\<close>

definition demoWaiting :: "msg list" where
  "demoWaiting =
     [tickMsg 900, mergeResultMsg 8 None, tickMsg 1000,
      disableAutoMergeResultMsg 7 (Some ''gh failed''), KeyMsg KeyRunes ''j'']"

text \<open>
  PR 7 was scheduled at time 1000. The clock passes 1000 and the pre-merge comment
  succeeds: the merge is in flight, and the clock reads 2000.
\<close>

definition demoIssueMerge :: "msg list" where
  "demoIssueMerge = [tickMsg 2000, commentResultMsg 7 True None]"

definition demoMergeIssued :: "(item list \<times> nat, string) model" where
  "demoMergeIssued = afterRun demoLib demoIssueMerge demoScheduled"

text \<open>Messages that arrive during the minute after the merge was set, at time 2000.\<close>

definition demoMinute :: "msg list" where
  "demoMinute =
     [tickMsg 1000002000, checkMergedMsg 8 True None, tickMsg 60000002000,
      disableAutoMergeResultMsg 7 None, KeyMsg KeyRunes ''j'']"

text \<open>Later messages of the engine (ticks and results of actions), none of them a key.\<close>

definition demoEngineLater :: "msg list" where
  "demoEngineLater =
     [tickMsg 3000, mergeResultMsg 7 None, tickMsg 70000000000, checkMergedMsg 7 False None,
      commitSHAMsg 7 ''abc'' None, commentResultMsg 7 False None,
      disableAutoMergeResultMsg 7 None, tickMsg 80000000000]"

text \<open>
  \<open>unrelated n x\<close>: the message \<open>x\<close> is not the result of an action on PR \<open>n\<close>, the result of
  disabling auto-merge apart. Ticks and keys are unrelated to every PR.
\<close>

fun unrelated :: "int \<Rightarrow> msg \<Rightarrow> bool" where
  "unrelated n (disableAutoMergeResultMsg k err) = True"
| "unrelated n x = (resultPR x \<noteq> Some n)"

text \<open>The message the entry ends with in the remediation path, by the result of the failure comment.\<close>

definition remediationMessage :: "string option \<Rightarrow> string" where
  "remediationMessage err =
     (case err of
        Some e \<Rightarrow> ''PR not merged (failure comment failed: '' @ e @ '')''
      | None \<Rightarrow> ''PR not merged (auto-merge disabled, notification sent)'')"

text \<open>
  PR 7 was scheduled at time 1000; the comment and the merge succeed, and the check is
  issued one minute later: the state check is in flight.
\<close>

definition demoIssueCheck :: "msg list" where
  "demoIssueCheck =
     [tickMsg 2000, commentResultMsg 7 True None, mergeResultMsg 7 None, tickMsg 60000002001]"

definition demoCheckIssued :: "(item list \<times> nat, string) model" where
  "demoCheckIssued = afterRun demoLib demoIssueCheck demoScheduled"

text \<open>
  What arrives between the commit SHA and the result of the failure comment: here the
  failed result of disabling auto-merge, and a tick.
\<close>

definition demoBetween :: "msg list" where
  "demoBetween = [disableAutoMergeResultMsg 7 (Some ''gh failed''), tickMsg 60000004000]"

text \<open>\<open>Contains sub str\<close>: the text \<open>sub\<close> occurs in \<open>str\<close>.\<close>

fun Contains :: "string \<Rightarrow> string \<Rightarrow> bool" where
  "Contains sub [] = (sub = [])"
| "Contains sub (c # cs) = (take (length sub) (c # cs) = sub \<or> Contains sub cs)"

text \<open>
  The state check of PR 7 reports that it is not merged, the fetch of the commit SHA fails
  and the failure comment succeeds.
\<close>

definition demoRemediate :: "msg list" where
  "demoRemediate =
     [checkMergedMsg 7 False None, commitSHAMsg 7 [] (Some ''gh pr view failed''),
      commentResultMsg 7 False None]"

definition demoRemediated :: "(item list \<times> nat, string) model" where
  "demoRemediated = afterRun demoLib demoRemediate demoCheckIssued"

text \<open>\<open>preMergeCommentFor n c\<close>: the command \<open>c\<close> is a pre-merge comment on PR \<open>n\<close>.\<close>

fun preMergeCommentFor :: "int \<Rightarrow> cmd \<Rightarrow> bool" where
  "preMergeCommentFor n (commentPRCmd k body isPreMerge) = (k = n \<and> isPreMerge)"
| "preMergeCommentFor n c = False"

text \<open>Messages that arrive after PR 7 was scheduled at the zero time.\<close>

definition demoAfterZero :: "msg list" where
  "demoAfterZero =
     [tickMsg 5000, tickMsg 6000, checkMergedMsg 8 True None, KeyMsg KeyRunes ''j'',
      tickMsg 7000, disableAutoMergeResultMsg 7 None, tickMsg 63271811040000000000]"

section \<open>Lemmas\<close>

subsection \<open>The index search\<close>

lemma findScheduledFrom_lower:
  "0 \<le> i \<Longrightarrow> findScheduledFrom i ss n = - 1 \<or> i \<le> findScheduledFrom i ss n"
proof (induction ss arbitrary: i)
  case Nil
  then show ?case by simp
next
  case (Cons s ss)
  from Cons.IH[of "i + 1"] Cons.prems show ?case by auto
qed

lemma findScheduledFrom_found:
  "0 \<le> i \<Longrightarrow> 0 \<le> findScheduledFrom i ss n \<Longrightarrow>
     (\<exists>k<length ss. findScheduledFrom i ss n = i + int k
        \<and> Number (PR (ss ! k)) = n \<and> \<not> Done (ss ! k)
        \<and> (\<forall>j<k. \<not> (Number (PR (ss ! j)) = n \<and> \<not> Done (ss ! j))))"
proof (induction ss arbitrary: i)
  case Nil
  then show ?case by simp
next
  case (Cons s ss)
  show ?case
  proof (cases "Number (PR s) = n \<and> \<not> Done s")
    case True
    then show ?thesis by (intro exI[of _ 0]) simp
  next
    case False
    with Cons.prems have "0 \<le> findScheduledFrom (i + 1) ss n" by auto
    with Cons.IH[of "i + 1"] Cons.prems obtain k where k: "k < length ss"
      "findScheduledFrom (i + 1) ss n = i + 1 + int k"
      "Number (PR (ss ! k)) = n" "\<not> Done (ss ! k)"
      "\<forall>j<k. \<not> (Number (PR (ss ! j)) = n \<and> \<not> Done (ss ! j))" by force
    show ?thesis
    proof (intro exI[of _ "Suc k"] conjI allI impI)
      fix j assume "j < Suc k"
      then show "\<not> (Number (PR ((s # ss) ! j)) = n \<and> \<not> Done ((s # ss) ! j))"
        using False k(5) by (cases j) auto
    qed (use False k in auto)
  qed
qed

lemma findScheduledFrom_none:
  "0 \<le> i \<Longrightarrow> (findScheduledFrom i ss n = - 1) = (n \<notin> set (activeNumbers ss))"
proof (induction ss arbitrary: i)
  case Nil
  then show ?case by (simp add: activeNumbers_def)
next
  case (Cons s ss)
  then show ?case by (auto simp: activeNumbers_def)
qed

lemma findScheduledIndex_found:
  assumes "0 \<le> findScheduledIndex ss n"
  shows "nat (findScheduledIndex ss n) < length ss"
    and "Number (PR (ss ! nat (findScheduledIndex ss n))) = n"
    and "\<not> Done (ss ! nat (findScheduledIndex ss n))"
  using findScheduledFrom_found[of 0 ss n] assms by (auto simp: findScheduledIndex_def)

lemma findScheduledIndex_neg:
  "(\<not> 0 \<le> findScheduledIndex ss n) = (n \<notin> set (activeNumbers ss))"
  using findScheduledFrom_none[of 0 ss n] findScheduledFrom_lower[of 0 ss n]
  by (auto simp: findScheduledIndex_def)

subsection \<open>Every step lets the entries advance\<close>

lemma advances_refl: "advances s s"
  by (simp add: advances_def)

lemma advances_trans: "advances s s' \<Longrightarrow> advances s' s'' \<Longrightarrow> advances s s''"
  by (auto simp: advances_def)

lemma tickEntry_advances: "advances s (fst (tickEntry L t s))"
  by (simp add: tickEntry_def advances_def Let_def split: prod.splits)

lemma tickLoop_all2: "list_all2 advances ss (fst (tickLoop L t ss))"
  by (induction ss) (auto simp: split_beta Let_def tickEntry_advances)

lemma updateAt_all2:
  assumes "0 \<le> idx \<Longrightarrow> nat idx < length ss \<Longrightarrow> advances (ss ! nat idx) (f (ss ! nat idx))"
    and "0 \<le> idx"
  shows "list_all2 advances ss (updateAt idx f ss)"
proof (cases "nat idx < length ss")
  case True
  with assms show ?thesis
    unfolding updateAt_def list_all2_conv_all_nth
    by (auto simp: nth_list_update advances_refl)
next
  case False
  then show ?thesis
    unfolding updateAt_def list_all2_conv_all_nth by (simp add: advances_refl)
qed

lemma found_update_all2:
  assumes "0 \<le> findScheduledIndex ss n" and "\<forall>s. \<not> Done s \<longrightarrow> advances s (f s)"
  shows "list_all2 advances ss (updateAt (findScheduledIndex ss n) f ss)"
  using assms findScheduledIndex_found(3)[OF assms(1)] by (intro updateAt_all2) auto

lemma all2_advances_active:
  "list_all2 advances ss ss' \<Longrightarrow>
     set (activeNumbers ss') \<subseteq> set (activeNumbers ss)
     \<and> (distinct (activeNumbers ss) \<longrightarrow> distinct (activeNumbers ss'))"
proof (induction rule: list_all2_induct)
  case Nil
  then show ?case by simp
next
  case (Cons s ss s' ss')
  then show ?case by (auto simp: activeNumbers_def advances_def)
qed

lemma updateTick_frame:
  "updateTick L t m = (m', c) \<Longrightarrow>
     list_all2 advances (scheduled m) (scheduled m') \<and> schedFor m' = schedFor m \<and> mode m' = mode m"
  using tickLoop_all2[of "scheduled m" L t]
  by (auto simp: updateTick_def split_beta)

lemma updateMergeResult_frame:
  "updateMergeResult L n e m = (m', c) \<Longrightarrow>
     list_all2 advances (scheduled m) (scheduled m') \<and> schedFor m' = schedFor m \<and> mode m' = mode m"
  unfolding updateMergeResult_def Let_def
  by (cases "0 \<le> findScheduledIndex (scheduled m) n"; cases e)
     (auto simp: list_all2_refl advances_refl advances_def intro!: found_update_all2)

lemma updateCheckMerged_frame:
  "updateCheckMerged n b e m = (m', c) \<Longrightarrow>
     list_all2 advances (scheduled m) (scheduled m') \<and> schedFor m' = schedFor m \<and> mode m' = mode m"
  unfolding updateCheckMerged_def Let_def
  by (cases "0 \<le> findScheduledIndex (scheduled m) n"; cases e; cases b)
     (auto simp: list_all2_refl advances_refl advances_def intro!: found_update_all2)

lemma updateCommitSHA_frame:
  "updateCommitSHA n sha e m = (m', c) \<Longrightarrow>
     list_all2 advances (scheduled m) (scheduled m') \<and> schedFor m' = schedFor m \<and> mode m' = mode m"
  unfolding updateCommitSHA_def Let_def
  by (cases "0 \<le> findScheduledIndex (scheduled m) n"; cases e)
     (auto simp: list_all2_refl advances_refl advances_def intro!: found_update_all2)

lemma updateCommentResult_frame:
  "updateCommentResult n b e m = (m', c) \<Longrightarrow>
     list_all2 advances (scheduled m) (scheduled m') \<and> schedFor m' = schedFor m \<and> mode m' = mode m"
  unfolding updateCommentResult_def Let_def
  by (cases "0 \<le> findScheduledIndex (scheduled m) n"; cases e; cases b)
     (auto simp: list_all2_refl advances_refl advances_def intro!: found_update_all2)

lemma updateDisableAutoMergeResult_frame:
  "updateDisableAutoMergeResult n e m = (m', c) \<Longrightarrow>
     list_all2 advances (scheduled m) (scheduled m') \<and> schedFor m' = schedFor m \<and> mode m' = mode m"
  unfolding updateDisableAutoMergeResult_def Let_def
  by (cases "0 \<le> findScheduledIndex (scheduled m) n"; cases e)
     (auto simp: list_all2_refl advances_refl advances_def intro!: found_update_all2)

lemma Update_engine_frame:
  assumes "\<not> isKeyMsg x" and "Update L x m = Inr (m', c)"
  shows "list_all2 advances (scheduled m) (scheduled m') \<and> schedFor m' = schedFor m \<and> mode m' = mode m"
proof (cases x)
  case (tickMsg t)
  with assms show ?thesis using updateTick_frame[of L t m m' c] by simp
next
  case (mergeResultMsg n e)
  with assms show ?thesis using updateMergeResult_frame[of L n e m m' c] by simp
next
  case (checkMergedMsg n b e)
  with assms show ?thesis using updateCheckMerged_frame[of n b e m m' c] by simp
next
  case (commentResultMsg n b e)
  with assms show ?thesis using updateCommentResult_frame[of n b e m m' c] by simp
next
  case (disableAutoMergeResultMsg n e)
  with assms show ?thesis using updateDisableAutoMergeResult_frame[of n e m m' c] by simp
next
  case (commitSHAMsg n sha e)
  with assms show ?thesis using updateCommitSHA_frame[of n sha e m m' c] by simp
next
  case (KeyMsg k str)
  with assms show ?thesis by simp
qed (use assms in \<open>auto simp: applyFilter_def Let_def list_all2_refl advances_refl split_beta split: if_splits\<close>)

subsection \<open>The invariant of the registry\<close>

lemma activeNumbers_append_new:
  "activeNumbers (ss @ [newScheduledMerge p w]) = activeNumbers ss @ [Number p]"
  by (simp add: activeNumbers_def newScheduledMerge_def)

lemma updateListingKey_wellScheduled:
  assumes "wellScheduled m" and "mode m = modeListing" and "updateListingKey L k str m = (m', c)"
  shows "wellScheduled m'"
proof -
  consider (quit) "str = ''q'' \<or> str = ''ctrl+c''"
    | (mine) "str = ''m''" | (refresh) "str = ''r''" | (enter) "str = ''enter''"
    | (other) "\<not> (str = ''q'' \<or> str = ''ctrl+c'')" "str \<noteq> ''m''" "str \<noteq> ''r''" "str \<noteq> ''enter''"
    by blast
  then show ?thesis
  proof cases
    case quit
    with assms show ?thesis
      by (auto simp: updateListingKey_def wellScheduled_def split: if_splits option.splits)
  next
    case mine
    with assms show ?thesis
      by (auto simp: updateListingKey_def wellScheduled_def applyFilter_def Let_def split: option.splits)
  next
    case refresh
    with assms show ?thesis
      by (auto simp: updateListingKey_def wellScheduled_def split: option.splits)
  next
    case enter
    with assms show ?thesis
      by (auto simp: updateListingKey_def wellScheduled_def Let_def findScheduledIndex_neg
               split: option.splits item.splits if_splits)
  next
    case other
    with assms show ?thesis
      by (auto simp: updateListingKey_def wellScheduled_def split_beta split: option.splits)
  qed
qed

lemma updateTimePickerKey_wellScheduled:
  assumes "wellScheduled m" and "updateTimePickerKey L k str m = Inr (m', c)"
  shows "wellScheduled m'"
proof -
  consider (enter) "str = ''enter''" | (esc) "str \<noteq> ''enter''" "str = ''esc'' \<or> str = ''q''"
    | (other) "str \<noteq> ''enter''" "\<not> (str = ''esc'' \<or> str = ''q'')"
    by blast
  then show ?thesis
  proof cases
    case enter
    with assms show ?thesis
      by (auto simp: updateTimePickerKey_def wellScheduled_def Let_def activeNumbers_append_new
               split: option.splits item.splits if_splits)
  next
    case esc
    with assms show ?thesis
      by (auto simp: updateTimePickerKey_def wellScheduled_def split: option.splits)
  next
    case other
    with assms show ?thesis
      by (auto simp: updateTimePickerKey_def wellScheduled_def split_beta split: option.splits)
  qed
qed

lemma updateSchedulingKey_wellScheduled:
  assumes "wellScheduled m" and "mode m = modeScheduling" and "updateSchedulingKey L k str m = (m', c)"
  shows "wellScheduled m'"
  using assms
  by (cases k)
     (auto simp: updateSchedulingKey_def wellScheduled_def Let_def activeNumbers_append_new split_beta
           split: option.splits sum.splits if_splits)

lemma Update_wellScheduled:
  assumes "wellScheduled m" and "Update L x m = Inr (m', c)"
  shows "wellScheduled m'"
proof (cases "isKeyMsg x")
  case False
  from Update_engine_frame[OF False assms(2)] all2_advances_active[of "scheduled m" "scheduled m'"]
  show ?thesis using assms(1)
    by (auto simp: wellScheduled_def split: option.splits)
next
  case True
  then obtain k str where x: "x = KeyMsg k str" by (cases x) auto
  show ?thesis
  proof (cases "mode m")
    case modeListing
    with assms x show ?thesis using updateListingKey_wellScheduled[of m L k str m' c] by simp
  next
    case modeTimePicker
    with assms x show ?thesis using updateTimePickerKey_wellScheduled[of m L k str m' c] by simp
  next
    case modeScheduling
    with assms x show ?thesis using updateSchedulingKey_wellScheduled[of m L k str m' c] by simp
  qed
qed

lemma reachable_wellScheduled: "reachable L m \<Longrightarrow> wellScheduled m"
proof (induction rule: reachable.induct)
  case (reachable_init t0)
  show ?case by (simp add: wellScheduled_def initialModel_def activeNumbers_def)
next
  case (reachable_step m x m' c)
  then show ?case using Update_wellScheduled by blast
qed

lemma distinct_activeNumbers_count:
  "distinct (activeNumbers ss) \<Longrightarrow> length (filter (\<lambda>s. Number (PR s) = n \<and> \<not> Done s) ss) \<le> 1"
proof (induction ss)
  case Nil
  then show ?case by simp
next
  case (Cons s ss)
  show ?case
  proof (cases "Number (PR s) = n \<and> \<not> Done s")
    case True
    with Cons.prems have "n \<notin> set (activeNumbers ss)" by (auto simp: activeNumbers_def)
    then have "filter (\<lambda>s. Number (PR s) = n \<and> \<not> Done s) ss = []"
      by (auto simp: activeNumbers_def filter_empty_conv)
    with True show ?thesis by simp
  next
    case False
    with Cons show ?thesis by (auto simp: activeNumbers_def split: if_splits)
  qed
qed

subsection \<open>Runs and reachable states\<close>

lemma run_reachable:
  "reachable L m \<Longrightarrow> run L xs m = Inr (m', c) \<Longrightarrow> reachable L m'"
proof (induction xs arbitrary: m c)
  case Nil
  then show ?case by simp
next
  case (Cons x xs)
  from Cons.prems(2) obtain m1 c1 m2 c2 where
    "Update L x m = Inr (m1, c1)" "run L xs m1 = Inr (m2, c2)" "m' = m2"
    by (auto split: sum.splits prod.splits)
  with Cons.IH[of m1 c2] Cons.prems(1) reachable_step[of L m x m1 c1] show ?case by simp
qed

lemma afterRun_reachable:
  assumes "reachable L m" and "run L xs m \<noteq> Inl NilPointerDereference"
  shows "reachable L (afterRun L xs m)"
proof (cases "run L xs m")
  case (Inl e)
  with assms(2) show ?thesis by (cases e) simp
next
  case (Inr r)
  with run_reachable[OF assms(1), of xs "fst r" "snd r"] show ?thesis
    by (simp add: afterRun_def split_beta)
qed

subsection \<open>The scheduled list only grows\<close>

lemma grows_refl: "grows ss ss"
  by (simp add: grows_def advances_refl)

lemma grows_trans: "grows ss ss' \<Longrightarrow> grows ss' ss'' \<Longrightarrow> grows ss ss''"
  unfolding grows_def using advances_trans by (meson le_trans less_le_trans)

lemma grows_append: "grows ss (ss @ xs)"
  by (simp add: grows_def nth_append advances_refl)

lemma all2_grows: "list_all2 advances ss ss' \<Longrightarrow> grows ss ss'"
  by (simp add: grows_def list_all2_conv_all_nth)

lemma updateListingKey_scheduled:
  "updateListingKey L k str m = (m', c) \<Longrightarrow> scheduled m' = scheduled m"
  by (auto simp: updateListingKey_def applyFilter_def Let_def split_beta
           split: if_splits option.splits item.splits)

lemma updateTimePickerKey_scheduled:
  "updateTimePickerKey L k str m = Inr (m', c) \<Longrightarrow>
     scheduled m' = scheduled m \<or> (\<exists>p w. scheduled m' = scheduled m @ [newScheduledMerge p w])"
  by (auto simp: updateTimePickerKey_def Let_def split_beta
           split: if_splits option.splits item.splits; blast)

lemma updateSchedulingKey_scheduled:
  "updateSchedulingKey L k str m = (m', c) \<Longrightarrow>
     scheduled m' = scheduled m \<or> (\<exists>p w. scheduled m' = scheduled m @ [newScheduledMerge p w])"
  by (cases k; auto simp: updateSchedulingKey_def Let_def split_beta
           split: if_splits option.splits sum.splits; blast)

lemma Update_grows:
  assumes "Update L x m = Inr (m', c)"
  shows "grows (scheduled m) (scheduled m')"
proof (cases "isKeyMsg x")
  case False
  from Update_engine_frame[OF False assms] show ?thesis by (simp add: all2_grows)
next
  case True
  then obtain k str where x: "x = KeyMsg k str" by (cases x) auto
  have "scheduled m' = scheduled m \<or> (\<exists>p w. scheduled m' = scheduled m @ [newScheduledMerge p w])"
  proof (cases "mode m")
    case modeListing
    with assms x show ?thesis using updateListingKey_scheduled[of L k str m m' c] by simp
  next
    case modeTimePicker
    with assms x show ?thesis using updateTimePickerKey_scheduled[of L k str m m' c] by simp
  next
    case modeScheduling
    with assms x show ?thesis using updateSchedulingKey_scheduled[of L k str m m' c] by simp
  qed
  then show ?thesis using grows_refl grows_append by auto
qed

lemma run_grows:
  "run L xs m = Inr (m', c) \<Longrightarrow> grows (scheduled m) (scheduled m')"
proof (induction xs arbitrary: m c)
  case Nil
  then show ?case by (simp add: grows_refl)
next
  case (Cons x xs)
  from Cons.prems obtain m1 c1 c2 where
    "Update L x m = Inr (m1, c1)" "run L xs m1 = Inr (m', c2)"
    by (auto split: sum.splits prod.splits)
  with Cons.IH[of m1 c2] Update_grows[of L x m m1 c1] show ?case
    using grows_trans by blast
qed

lemma advances_stage: "advances s s' \<Longrightarrow> stage s \<le> stage s'"
  by (auto simp: advances_def stage_def)

lemma run_afterRun:
  "run L xs m \<noteq> Inl NilPointerDereference \<Longrightarrow> run L xs m = Inr (afterRun L xs m, cmdsOfRun L xs m)"
proof (cases "run L xs m")
  case (Inl e)
  assume "run L xs m \<noteq> Inl NilPointerDereference"
  with Inl show ?thesis by (cases e) simp
next
  case (Inr r)
  then show ?thesis by (simp add: afterRun_def cmdsOfRun_def split_beta)
qed

subsection \<open>Updates never panic on a well-scheduled model\<close>

lemma Update_total:
  assumes "wellScheduled m"
  shows "\<exists>m' c. Update L x m = Inr (m', c)"
proof (cases x)
  case (KeyMsg k str)
  show ?thesis
  proof (cases "schedFor m")
    case None
    with assms have "mode m = modeListing" by (simp add: wellScheduled_def)
    with KeyMsg show ?thesis by (cases "updateListingKey L k str m") simp
  next
    case (Some p)
    show ?thesis
    proof (cases "mode m")
      case modeListing
      with KeyMsg show ?thesis by (cases "updateListingKey L k str m") simp
    next
      case modeScheduling
      with KeyMsg show ?thesis by (cases "updateSchedulingKey L k str m") simp
    next
      case modeTimePicker
      have "\<exists>m' c. updateTimePickerKey L k str m = Inr (m', c)"
        using Some
        by (simp add: updateTimePickerKey_def Let_def split_beta split: option.splits item.splits)
      with KeyMsg modeTimePicker show ?thesis by simp
    qed
  qed
next
  case (tickMsg t)
  then show ?thesis by (cases "updateTick L t m") simp
next
  case (mergeResultMsg n e)
  then show ?thesis by (cases "updateMergeResult L n e m") simp
next
  case (checkMergedMsg n b e)
  then show ?thesis by (cases "updateCheckMerged n b e m") simp
next
  case (commentResultMsg n b e)
  then show ?thesis by (cases "updateCommentResult n b e m") simp
next
  case (disableAutoMergeResultMsg n e)
  then show ?thesis by (cases "updateDisableAutoMergeResult n e m") simp
next
  case (commitSHAMsg n sha e)
  then show ?thesis by (cases "updateCommitSHA n sha e m") simp
qed (auto simp: split_beta)

lemma run_total:
  "wellScheduled m \<Longrightarrow>
     \<exists>m' c. run L xs m = Inr (m', c) \<and> wellScheduled m' \<and> grows (scheduled m) (scheduled m')"
proof (induction xs arbitrary: m)
  case Nil
  then show ?case by (simp add: grows_refl)
next
  case (Cons x xs)
  from Update_total[OF Cons.prems, of L x] obtain m1 c1 where u: "Update L x m = Inr (m1, c1)"
    by blast
  from Update_wellScheduled[OF Cons.prems u] have w1: "wellScheduled m1" .
  from Cons.IH[OF w1] obtain m2 c2 where r: "run L xs m1 = Inr (m2, c2)" "wellScheduled m2"
    "grows (scheduled m1) (scheduled m2)" by blast
  from Update_grows[OF u] r(3) have "grows (scheduled m) (scheduled m2)" by (rule grows_trans)
  with u r show ?case by simp
qed

subsection \<open>The commands of a tick\<close>

lemma tickLoop_length: "length (fst (tickLoop L t ss)) = length ss"
  by (induction ss) (auto simp: split_beta)

lemma tickLoop_nth: "i < length ss \<Longrightarrow> fst (tickLoop L t ss) ! i = fst (tickEntry L t (ss ! i))"
proof (induction ss arbitrary: i)
  case Nil
  then show ?case by simp
next
  case (Cons s ss)
  then show ?case by (cases i) (auto simp: split_beta)
qed

lemma tickEntry_cmdPR:
  "c \<in> set (snd (tickEntry L t s)) \<Longrightarrow> cmdPR c = Some (Number (PR s)) \<and> \<not> Done s"
  by (auto simp: tickEntry_def Let_def split: if_splits)

lemma tickEntry_Done: "Done (fst (tickEntry L t s)) = Done s"
  by (simp add: tickEntry_def Let_def)

lemma tickEntry_quiet: "snd (tickEntry L t s) = [] \<Longrightarrow> fst (tickEntry L t s) = s"
  by (auto simp: tickEntry_def Let_def split: if_splits)

lemma tickLoop_no_cmd:
  "n \<notin> set (activeNumbers ss) \<Longrightarrow> c \<in> set (snd (tickLoop L t ss)) \<Longrightarrow> cmdPR c \<noteq> Some n"
proof (induction ss)
  case Nil
  then show ?case by simp
next
  case (Cons s ss)
  from Cons.prems(1) have a: "n \<notin> set (activeNumbers ss)" and b: "Done s \<or> Number (PR s) \<noteq> n"
    by (auto simp: activeNumbers_def split: if_splits)
  from Cons.prems(2) have "c \<in> set (snd (tickEntry L t s)) \<or> c \<in> set (snd (tickLoop L t ss))"
    by (auto simp: split_beta)
  then show ?case
  proof
    assume "c \<in> set (snd (tickEntry L t s))"
    from tickEntry_cmdPR[OF this] b show ?thesis by auto
  next
    assume "c \<in> set (snd (tickLoop L t ss))"
    with Cons.IH[OF a] show ?thesis by simp
  qed
qed

lemma filter_cmdPR_tickEntry:
  "filter (\<lambda>c. cmdPR c = Some n) (snd (tickEntry L t s))
     = (if Number (PR s) = n then snd (tickEntry L t s) else [])"
  using tickEntry_cmdPR[of _ L t s] by (auto simp: filter_empty_conv filter_id_conv)

lemma tickLoop_cmds_of_entry:
  "distinct (activeNumbers ss) \<Longrightarrow> i < length ss \<Longrightarrow> \<not> Done (ss ! i) \<Longrightarrow>
     filter (\<lambda>c. cmdPR c = Some (Number (PR (ss ! i)))) (snd (tickLoop L t ss))
       = snd (tickEntry L t (ss ! i))"
proof (induction ss arbitrary: i)
  case Nil
  then show ?case by simp
next
  case (Cons s ss)
  show ?case
  proof (cases i)
    case 0
    with Cons.prems have "Number (PR s) \<notin> set (activeNumbers ss)"
      by (auto simp: activeNumbers_def)
    from tickLoop_no_cmd[OF this, of _ L t]
    have "filter (\<lambda>c. cmdPR c = Some (Number (PR s))) (snd (tickLoop L t ss)) = []"
      by (auto simp: filter_empty_conv)
    with 0 show ?thesis by (simp add: split_beta filter_cmdPR_tickEntry)
  next
    case (Suc j)
    with Cons.prems have j: "j < length ss" "\<not> Done (ss ! j)" and d: "distinct (activeNumbers ss)"
      by (auto simp: activeNumbers_def split: if_splits)
    from j have "Number (PR (ss ! j)) \<in> set (activeNumbers ss)"
      by (auto simp: activeNumbers_def)
    with Cons.prems(1) have "Done s \<or> Number (PR s) \<noteq> Number (PR (ss ! j))"
      by (auto simp: activeNumbers_def split: if_splits)
    then have "filter (\<lambda>c. cmdPR c = Some (Number (PR (ss ! j)))) (snd (tickEntry L t s)) = []"
      using tickEntry_cmdPR[of _ L t s] by (auto simp: filter_empty_conv)
    with Cons.IH[OF d j] Suc show ?thesis by (simp add: split_beta)
  qed
qed

subsection \<open>Steps during which an entry waits\<close>

lemma sameButMessage_refl: "sameButMessage s s"
  by (simp add: sameButMessage_def)

lemma sameButMessage_fields:
  "sameButMessage s s' \<Longrightarrow>
     PR s' = PR s \<and> When s' = When s \<and> PreMergeCommentPosted s' = PreMergeCommentPosted s
     \<and> MergeTriggered s' = MergeTriggered s \<and> CheckScheduled s' = CheckScheduled s
     \<and> CheckAt s' = CheckAt s \<and> FailureHandled s' = FailureHandled s \<and> Done s' = Done s"
  unfolding sameButMessage_def
  by (cases s; cases s') simp

lemma sameButMessage_update:
  "sameButMessage s s' \<Longrightarrow> sameButMessage s (s'\<lparr>LastMessage := x\<rparr>)"
  by (simp add: sameButMessage_def)

lemma tickEntry_sameButMessage:
  assumes "sameButMessage s s'"
  shows "snd (tickEntry L t s') = snd (tickEntry L t s)"
  using sameButMessage_fields[OF assms] by (simp add: tickEntry_def Let_def)

text \<open>What the handler of a result for PR \<open>k\<close> leaves alone.\<close>

lemma updateAt_other: "j \<noteq> nat idx \<Longrightarrow> updateAt idx f ss ! j = ss ! j"
  by (simp add: updateAt_def)

lemma updateAt_length: "length (updateAt idx f ss) = length ss"
  by (simp add: updateAt_def)

lemma result_step:
  assumes "resultPR x = Some k" and "Update L x m = Inr (m', c)"
  shows "length (scheduled m') = length (scheduled m)
    \<and> (\<forall>j<length (scheduled m). Number (PR (scheduled m ! j)) \<noteq> k \<longrightarrow> scheduled m' ! j = scheduled m ! j)
    \<and> (\<forall>c'\<in>set c. cmdPR c' = Some k \<or> cmdPR c' = None)"
proof (cases "0 \<le> findScheduledIndex (scheduled m) k")
  case False
  with assms have "m' = m \<and> c = []"
    by (cases x) (simp_all add: updateMergeResult_def updateCheckMerged_def updateCommentResult_def
        updateDisableAutoMergeResult_def updateCommitSHA_def Let_def)
  then show ?thesis by simp
next
  case True
  note f = findScheduledIndex_found[OF True]
  have other: "\<And>j g. Number (PR (scheduled m ! j)) \<noteq> k \<Longrightarrow>
      updateAt (findScheduledIndex (scheduled m) k) g (scheduled m) ! j = scheduled m ! j"
    using f(2) by (intro updateAt_other) auto
  from assms True show ?thesis
  proof (cases x)
    case (mergeResultMsg n e)
    with assms True show ?thesis
      by (cases e) (auto simp: updateMergeResult_def Let_def updateAt_length other)
  next
    case (checkMergedMsg n b e)
    with assms True show ?thesis
      by (cases e; cases b) (auto simp: updateCheckMerged_def Let_def updateAt_length other)
  next
    case (commentResultMsg n b e)
    with assms True show ?thesis
      by (cases e; cases b) (auto simp: updateCommentResult_def Let_def updateAt_length other)
  next
    case (disableAutoMergeResultMsg n e)
    with assms True show ?thesis
      by (cases e) (auto simp: updateDisableAutoMergeResult_def Let_def updateAt_length other)
  next
    case (commitSHAMsg n sha e)
    with assms True show ?thesis
      by (cases e) (auto simp: updateCommitSHA_def Let_def updateAt_length other)
  qed simp_all
qed

lemma disable_step:
  assumes "Update L (disableAutoMergeResultMsg k e) m = Inr (m', c)"
  shows "c = [] \<and> length (scheduled m') = length (scheduled m)
    \<and> (\<forall>j<length (scheduled m). sameButMessage (scheduled m ! j) (scheduled m' ! j))"
proof (cases "0 \<le> findScheduledIndex (scheduled m) k")
  case False
  with assms show ?thesis
    by (auto simp: updateDisableAutoMergeResult_def Let_def sameButMessage_refl)
next
  case True
  with assms findScheduledIndex_found(1)[OF True] show ?thesis
    by (cases e)
       (auto simp: updateDisableAutoMergeResult_def updateAt_def nth_list_update Let_def
          sameButMessage_refl sameButMessage_def)
qed

text \<open>What a message that is neither a tick nor a result does to the list and issues.\<close>

lemma plain_step:
  assumes "resultPR x = None" and "\<forall>t. x \<noteq> tickMsg t" and "Update L x m = Inr (m', c)"
  shows "(scheduled m' = scheduled m \<or> (\<exists>p w. scheduled m' = scheduled m @ [newScheduledMerge p w]))
    \<and> (\<forall>c'\<in>set c. cmdPR c' = None)"
proof (cases x)
  case (KeyMsg k str)
  show ?thesis
  proof (cases "mode m")
    case modeListing
    with assms KeyMsg have u: "updateListingKey L k str m = (m', c)" by simp
    then have "\<forall>c'\<in>set c. cmdPR c' = None"
      by (auto simp: updateListingKey_def Let_def split_beta
               split: if_splits option.splits item.splits)
    with updateListingKey_scheduled[OF u] show ?thesis by simp
  next
    case modeTimePicker
    with assms KeyMsg have u: "updateTimePickerKey L k str m = Inr (m', c)" by simp
    then have "\<forall>c'\<in>set c. cmdPR c' = None"
      by (auto simp: updateTimePickerKey_def Let_def split_beta
               split: if_splits option.splits item.splits)
    with updateTimePickerKey_scheduled[OF u] show ?thesis by simp
  next
    case modeScheduling
    with assms KeyMsg have u: "updateSchedulingKey L k str m = (m', c)" by simp
    then have "\<forall>c'\<in>set c. cmdPR c' = None"
      by (cases k; auto simp: updateSchedulingKey_def Let_def split_beta
               split: if_splits option.splits sum.splits)
    with updateSchedulingKey_scheduled[OF u] show ?thesis by simp
  qed
qed (use assms in \<open>auto simp: applyFilter_def Let_def split_beta split: if_splits\<close>)

lemma sameButMessage_trans:
  "sameButMessage a b \<Longrightarrow> sameButMessage b c \<Longrightarrow> sameButMessage a c"
  unfolding sameButMessage_def by (cases a; cases b; cases c) simp

lemma waiting_step:
  assumes w: "wellScheduled m" and i: "i < length (scheduled m)"
    and same: "sameButMessage s (scheduled m ! i)" and nd: "\<not> Done s"
    and wait: "waiting L (Number (PR s)) s x" and u: "Update L x m = Inr (m', c)"
  shows "i < length (scheduled m') \<and> sameButMessage s (scheduled m' ! i)
    \<and> (\<forall>c'\<in>set c. cmdPR c' \<noteq> Some (Number (PR s)))"
proof -
  note f = sameButMessage_fields[OF same]
  from w have d: "distinct (activeNumbers (scheduled m))" by (simp add: wellScheduled_def)
  show ?thesis
  proof (cases x)
    case (tickMsg t)
    with wait have q: "snd (tickEntry L t s) = []" by simp
    with tickEntry_sameButMessage[OF same, of L t]
    have q': "snd (tickEntry L t (scheduled m ! i)) = []" by simp
    from u tickMsg have m': "scheduled m' = fst (tickLoop L t (scheduled m))"
      and c: "c = snd (tickLoop L t (scheduled m)) @ [tickCmd]"
      by (auto simp: updateTick_def split_beta)
    from m' i tickEntry_quiet[OF q'] have e: "scheduled m' ! i = scheduled m ! i"
      by (simp add: tickLoop_nth)
    from f nd have "\<not> Done (scheduled m ! i)" by simp
    from tickLoop_cmds_of_entry[OF d i this, of L t] q' f
    have "filter (\<lambda>c. cmdPR c = Some (Number (PR s))) (snd (tickLoop L t (scheduled m))) = []"
      by simp
    then have "\<forall>c'\<in>set (snd (tickLoop L t (scheduled m))). cmdPR c' \<noteq> Some (Number (PR s))"
      by (simp add: filter_empty_conv)
    with c e i m' same show ?thesis by (auto simp: tickLoop_length)
  next
    case (disableAutoMergeResultMsg k e)
    with disable_step[of L k e m m' c] u i
    have dc: "c = []" "i < length (scheduled m')"
      and ds: "sameButMessage (scheduled m ! i) (scheduled m' ! i)"
      by auto
    from dc sameButMessage_trans[OF same ds] show ?thesis by simp
  next
    case (KeyMsg k str)
    with plain_step[of x L m m' c] u i same show ?thesis by (auto simp: nth_append)
  next
    case (WindowSizeMsg a b)
    with plain_step[of x L m m' c] u i same show ?thesis by (auto simp: nth_append)
  next
    case (meMsg a)
    with plain_step[of x L m m' c] u i same show ?thesis by (auto simp: nth_append)
  next
    case (prListMsg a)
    with plain_step[of x L m m' c] u i same show ?thesis by (auto simp: nth_append)
  next
    case (errMsg a)
    with plain_step[of x L m m' c] u i same show ?thesis by (auto simp: nth_append)
  next
    case (OtherMsg a)
    with plain_step[of x L m m' c] u i same show ?thesis by (auto simp: nth_append)
  next
    case (mergeResultMsg k e)
    with wait have "k \<noteq> Number (PR s)" by simp
    with result_step[of x k L m m' c] mergeResultMsg u i same f show ?thesis by auto
  next
    case (checkMergedMsg k b e)
    with wait have "k \<noteq> Number (PR s)" by simp
    with result_step[of x k L m m' c] checkMergedMsg u i same f show ?thesis by auto
  next
    case (commentResultMsg k b e)
    with wait have "k \<noteq> Number (PR s)" by simp
    with result_step[of x k L m m' c] commentResultMsg u i same f show ?thesis by auto
  next
    case (commitSHAMsg k sha e)
    with wait have "k \<noteq> Number (PR s)" by simp
    with result_step[of x k L m m' c] commitSHAMsg u i same f show ?thesis by auto
  qed
qed

lemma run_waiting:
  assumes "wellScheduled m" and "i < length (scheduled m)"
    and "sameButMessage s (scheduled m ! i)" and "\<not> Done s"
    and "\<forall>x\<in>set xs. waiting L (Number (PR s)) s x"
  shows "\<exists>m' c. run L xs m = Inr (m', c) \<and> wellScheduled m' \<and> i < length (scheduled m')
    \<and> sameButMessage s (scheduled m' ! i)
    \<and> (\<forall>c'\<in>set c. cmdPR c' \<noteq> Some (Number (PR s)))"
  using assms
proof (induction xs arbitrary: m)
  case Nil
  then show ?case by simp
next
  case (Cons x xs)
  from Update_total[OF Cons.prems(1), of L x] obtain m1 c1 where u: "Update L x m = Inr (m1, c1)"
    by blast
  from Update_wellScheduled[OF Cons.prems(1) u] have w1: "wellScheduled m1" .
  from Cons.prems(5) have wx: "waiting L (Number (PR s)) s x"
    and wxs: "\<forall>x\<in>set xs. waiting L (Number (PR s)) s x" by simp_all
  from waiting_step[OF Cons.prems(1,2,3,4) wx u]
  have s1: "i < length (scheduled m1)" "sameButMessage s (scheduled m1 ! i)"
    "\<forall>c'\<in>set c1. cmdPR c' \<noteq> Some (Number (PR s))" by simp_all
  from Cons.IH[OF w1 s1(1,2) Cons.prems(4) wxs] obtain m2 c2 where
    r: "run L xs m1 = Inr (m2, c2)" "wellScheduled m2" "i < length (scheduled m2)"
    "sameButMessage s (scheduled m2 ! i)" "\<forall>c'\<in>set c2. cmdPR c' \<noteq> Some (Number (PR s))"
    by blast
  from u r s1(3) show ?case by auto
qed

text \<open>With distinct active numbers, the search finds the active entry of a PR where it is.\<close>

lemma findScheduledIndex_active:
  assumes "distinct (activeNumbers ss)" and "i < length ss" and "\<not> Done (ss ! i)"
  shows "findScheduledIndex ss (Number (PR (ss ! i))) = int i"
proof -
  from assms(2,3) have "Number (PR (ss ! i)) \<in> set (activeNumbers ss)"
    by (auto simp: activeNumbers_def)
  then have pos: "0 \<le> findScheduledIndex ss (Number (PR (ss ! i)))"
    using findScheduledIndex_neg[of ss "Number (PR (ss ! i))"] by auto
  define k where "k = nat (findScheduledIndex ss (Number (PR (ss ! i))))"
  from findScheduledIndex_found[OF pos]
  have k: "k < length ss" "Number (PR (ss ! k)) = Number (PR (ss ! i))" "\<not> Done (ss ! k)"
    by (simp_all add: k_def)
  have "k = i"
  proof (rule ccontr)
    assume ne: "k \<noteq> i"
    have "\<And>a b. a < b \<Longrightarrow> b < length ss \<Longrightarrow> \<not> Done (ss ! a) \<Longrightarrow> \<not> Done (ss ! b)
            \<Longrightarrow> Number (PR (ss ! a)) = Number (PR (ss ! b)) \<Longrightarrow> False"
    proof -
      fix a b assume ab: "a < b" "b < length ss" "\<not> Done (ss ! a)" "\<not> Done (ss ! b)"
        "Number (PR (ss ! a)) = Number (PR (ss ! b))"
      have split: "ss = take b ss @ ss ! b # drop (Suc b) ss"
        using ab(2) by (simp add: id_take_nth_drop)
      have "ss ! a \<in> set (take b ss)"
        using ab(1,2) by (auto simp: in_set_conv_nth intro!: exI[of _ a])
      with ab(3) have "Number (PR (ss ! a)) \<in> set (activeNumbers (take b ss))"
        by (auto simp: activeNumbers_def)
      moreover have "activeNumbers ss
          = activeNumbers (take b ss) @ Number (PR (ss ! b)) # activeNumbers (drop (Suc b) ss)"
        using ab(4) by (subst split) (simp add: activeNumbers_def)
      ultimately show False using assms(1) ab(5) by auto
    qed
    from this[of k i] this[of i k] ne k assms(2,3) show False
      by (cases "k < i") auto
  qed
  with pos show ?thesis by (simp add: k_def)
qed

lemma tick_step:
  assumes "wellScheduled m" and "i < length (scheduled m)" and "\<not> Done (scheduled m ! i)"
  shows "\<exists>m' c. Update L (tickMsg t) m = Inr (m', c)
    \<and> length (scheduled m') = length (scheduled m)
    \<and> scheduled m' ! i = fst (tickEntry L t (scheduled m ! i))
    \<and> filter (\<lambda>c. cmdPR c = Some (Number (PR (scheduled m ! i)))) c
         = snd (tickEntry L t (scheduled m ! i))"
proof -
  from assms(1) have d: "distinct (activeNumbers (scheduled m))" by (simp add: wellScheduled_def)
  from tickLoop_cmds_of_entry[OF d assms(2,3), of L t] assms(2)
  show ?thesis by (simp add: updateTick_def split_beta tickLoop_length tickLoop_nth)
qed

lemma beforeDue_waiting:
  assumes "beforeDue T n x" and "\<And>t. t \<le> T \<Longrightarrow> snd (tickEntry L t s) = []"
  shows "waiting L n s x"
  using assms by (cases x) simp_all

subsection \<open>A PR without an active entry gets no command from the engine\<close>

lemma engine_step_no_active:
  assumes "\<not> isKeyMsg x" and "n \<notin> set (activeNumbers (scheduled m))"
  shows "\<exists>m' c. Update L x m = Inr (m', c) \<and> n \<notin> set (activeNumbers (scheduled m'))
    \<and> (\<forall>c'\<in>set c. cmdPR c' \<noteq> Some n)"
proof -
  have "\<exists>r. Update L x m = Inr r"
    using assms(1) by (cases x) (simp_all add: split_beta)
  then obtain m' c where u: "Update L x m = Inr (m', c)"
    by (metis surj_pair)
  from Update_engine_frame[OF assms(1) u] all2_advances_active[of "scheduled m" "scheduled m'"] assms(2)
  have a: "n \<notin> set (activeNumbers (scheduled m'))" by auto
  have "\<forall>c'\<in>set c. cmdPR c' \<noteq> Some n"
  proof (cases x)
    case (tickMsg t)
    with u have "c = snd (tickLoop L t (scheduled m)) @ [tickCmd]"
      by (auto simp: updateTick_def split_beta)
    with tickLoop_no_cmd[OF assms(2), of _ L t] show ?thesis by auto
  next
    case (KeyMsg k str)
    with assms(1) show ?thesis by simp
  next
    case (WindowSizeMsg a b)
    with plain_step[of x L m m' c] u show ?thesis by auto
  next
    case (meMsg a)
    with plain_step[of x L m m' c] u show ?thesis by auto
  next
    case (prListMsg a)
    with plain_step[of x L m m' c] u show ?thesis by auto
  next
    case (errMsg a)
    with plain_step[of x L m m' c] u show ?thesis by auto
  next
    case (OtherMsg a)
    with plain_step[of x L m m' c] u show ?thesis by auto
  next
    case (mergeResultMsg k e)
    show ?thesis
    proof (cases "k = n")
      case True
      with assms(2) u mergeResultMsg show ?thesis
        by (simp add: updateMergeResult_def findScheduledIndex_neg[symmetric])
    next
      case False
      with result_step[of x k L m m' c] mergeResultMsg u show ?thesis by auto
    qed
  next
    case (checkMergedMsg k b e)
    show ?thesis
    proof (cases "k = n")
      case True
      with assms(2) u checkMergedMsg show ?thesis
        by (simp add: updateCheckMerged_def findScheduledIndex_neg[symmetric])
    next
      case False
      with result_step[of x k L m m' c] checkMergedMsg u show ?thesis by auto
    qed
  next
    case (commentResultMsg k b e)
    show ?thesis
    proof (cases "k = n")
      case True
      with assms(2) u commentResultMsg show ?thesis
        by (simp add: updateCommentResult_def findScheduledIndex_neg[symmetric])
    next
      case False
      with result_step[of x k L m m' c] commentResultMsg u show ?thesis by auto
    qed
  next
    case (disableAutoMergeResultMsg k e)
    with disable_step[of L k e m m' c] u show ?thesis by simp
  next
    case (commitSHAMsg k sha e)
    show ?thesis
    proof (cases "k = n")
      case True
      with assms(2) u commitSHAMsg show ?thesis
        by (simp add: updateCommitSHA_def findScheduledIndex_neg[symmetric])
    next
      case False
      with result_step[of x k L m m' c] commitSHAMsg u show ?thesis by auto
    qed
  qed
  with u a show ?thesis by simp
qed

lemma run_no_active:
  assumes "\<forall>y\<in>set ys. \<not> isKeyMsg y" and "n \<notin> set (activeNumbers (scheduled m))"
  shows "\<exists>m' c. run L ys m = Inr (m', c) \<and> n \<notin> set (activeNumbers (scheduled m'))
    \<and> (\<forall>c'\<in>set c. cmdPR c' \<noteq> Some n)"
  using assms
proof (induction ys arbitrary: m)
  case Nil
  then show ?case by simp
next
  case (Cons y ys)
  from Cons.prems(1) have ky: "\<not> isKeyMsg y" and kys: "\<forall>y\<in>set ys. \<not> isKeyMsg y" by simp_all
  from engine_step_no_active[OF ky Cons.prems(2), of L] obtain m1 c1 where
    u: "Update L y m = Inr (m1, c1)" "n \<notin> set (activeNumbers (scheduled m1))"
    "\<forall>c'\<in>set c1. cmdPR c' \<noteq> Some n" by blast
  from Cons.IH[OF kys u(2)] obtain m2 c2 where
    r: "run L ys m1 = Inr (m2, c2)" "n \<notin> set (activeNumbers (scheduled m2))"
    "\<forall>c'\<in>set c2. cmdPR c' \<noteq> Some n" by blast
  from u r show ?case by auto
qed

lemma done_removes_active:
  assumes "distinct (activeNumbers ss)" and "i < length ss" and "\<not> Done (ss ! i)"
    and "Done s'"
  shows "Number (PR (ss ! i)) \<notin> set (activeNumbers (ss[i := s']))"
proof -
  have split: "ss = take i ss @ ss ! i # drop (Suc i) ss"
    using assms(2) by (simp add: id_take_nth_drop)
  have "activeNumbers ss
      = activeNumbers (take i ss) @ Number (PR (ss ! i)) # activeNumbers (drop (Suc i) ss)"
    using assms(3) by (subst split) (simp add: activeNumbers_def)
  with assms(1) have "Number (PR (ss ! i)) \<notin> set (activeNumbers (take i ss))"
    "Number (PR (ss ! i)) \<notin> set (activeNumbers (drop (Suc i) ss))" by auto
  moreover have "activeNumbers (ss[i := s'])
      = activeNumbers (take i ss) @ activeNumbers (drop (Suc i) ss)"
    using assms(2,4) by (simp add: upd_conv_take_nth_drop activeNumbers_def)
  ultimately show ?thesis by simp
qed

subsection \<open>Steps that leave an entry active\<close>

lemma run_append:
  "run L xs m = Inr (m1, c1) \<Longrightarrow> run L ys m1 = Inr (m2, c2) \<Longrightarrow>
     run L (xs @ ys) m = Inr (m2, c1 @ c2)"
proof (induction xs arbitrary: m c1)
  case Nil
  then show ?case by simp
next
  case (Cons x xs)
  from Cons.prems(1) obtain ma ca cb where
    u: "Update L x m = Inr (ma, ca)" and r: "run L xs ma = Inr (m1, cb)" and c: "c1 = ca @ cb"
    by (auto split: sum.splits prod.splits)
  from Cons.IH[OF r Cons.prems(2)] u c show ?case by simp
qed

lemma run_single: "Update L x m = Inr (m', c) \<Longrightarrow> run L [x] m = Inr (m', c)"
  by simp

lemma unrelated_step:
  assumes w: "wellScheduled m" and i: "i < length (scheduled m)"
    and nd: "\<not> Done (scheduled m ! i)" and p: "unrelated (Number (PR (scheduled m ! i))) x"
    and u: "Update L x m = Inr (m', c)"
  shows "i < length (scheduled m') \<and> \<not> Done (scheduled m' ! i)
    \<and> advances (scheduled m ! i) (scheduled m' ! i)"
proof -
  from Update_grows[OF u] i
  have g: "i < length (scheduled m')" "advances (scheduled m ! i) (scheduled m' ! i)"
    by (auto simp: grows_def)
  have "\<not> Done (scheduled m' ! i)"
  proof (cases x)
    case (tickMsg t)
    with u have "scheduled m' = fst (tickLoop L t (scheduled m))"
      by (auto simp: updateTick_def split_beta)
    with i nd show ?thesis by (simp add: tickLoop_nth tickEntry_Done)
  next
    case (disableAutoMergeResultMsg k e)
    with disable_step[of L k e m m' c] u i
    have "sameButMessage (scheduled m ! i) (scheduled m' ! i)" by auto
    from sameButMessage_fields[OF this] nd show ?thesis by simp
  next
    case (KeyMsg k str)
    with plain_step[of x L m m' c] u i nd show ?thesis by (auto simp: nth_append)
  next
    case (WindowSizeMsg a b)
    with plain_step[of x L m m' c] u i nd show ?thesis by (auto simp: nth_append)
  next
    case (meMsg a)
    with plain_step[of x L m m' c] u i nd show ?thesis by (auto simp: nth_append)
  next
    case (prListMsg a)
    with plain_step[of x L m m' c] u i nd show ?thesis by (auto simp: nth_append)
  next
    case (errMsg a)
    with plain_step[of x L m m' c] u i nd show ?thesis by (auto simp: nth_append)
  next
    case (OtherMsg a)
    with plain_step[of x L m m' c] u i nd show ?thesis by (auto simp: nth_append)
  next
    case (mergeResultMsg k e)
    with p have "k \<noteq> Number (PR (scheduled m ! i))" by simp
    with result_step[of x k L m m' c] mergeResultMsg u i nd show ?thesis by auto
  next
    case (checkMergedMsg k b e)
    with p have "k \<noteq> Number (PR (scheduled m ! i))" by simp
    with result_step[of x k L m m' c] checkMergedMsg u i nd show ?thesis by auto
  next
    case (commentResultMsg k b e)
    with p have "k \<noteq> Number (PR (scheduled m ! i))" by simp
    with result_step[of x k L m m' c] commentResultMsg u i nd show ?thesis by auto
  next
    case (commitSHAMsg k sha e)
    with p have "k \<noteq> Number (PR (scheduled m ! i))" by simp
    with result_step[of x k L m m' c] commitSHAMsg u i nd show ?thesis by auto
  qed
  with g show ?thesis by simp
qed

lemma run_unrelated:
  assumes "wellScheduled m" and "i < length (scheduled m)"
    and "\<not> Done (scheduled m ! i)"
    and "\<forall>x\<in>set xs. unrelated (Number (PR (scheduled m ! i))) x"
  shows "\<exists>m' c. run L xs m = Inr (m', c) \<and> wellScheduled m' \<and> i < length (scheduled m')
    \<and> \<not> Done (scheduled m' ! i) \<and> advances (scheduled m ! i) (scheduled m' ! i)"
  using assms
proof (induction xs arbitrary: m)
  case Nil
  then show ?case by (simp add: advances_refl)
next
  case (Cons x xs)
  from Update_total[OF Cons.prems(1), of L x] obtain m1 c1 where u: "Update L x m = Inr (m1, c1)"
    by blast
  from Update_wellScheduled[OF Cons.prems(1) u] have w1: "wellScheduled m1" .
  from Cons.prems(4) have px: "unrelated (Number (PR (scheduled m ! i))) x"
    and pxs: "\<forall>x\<in>set xs. unrelated (Number (PR (scheduled m ! i))) x" by simp_all
  from unrelated_step[OF Cons.prems(1,2,3) px u]
  have s1: "i < length (scheduled m1)" "\<not> Done (scheduled m1 ! i)"
    "advances (scheduled m ! i) (scheduled m1 ! i)" by simp_all
  from s1(3) have "PR (scheduled m1 ! i) = PR (scheduled m ! i)" by (simp add: advances_def)
  with pxs have pxs1: "\<forall>x\<in>set xs. unrelated (Number (PR (scheduled m1 ! i))) x" by simp
  from Cons.IH[OF w1 s1(1,2) pxs1] obtain m2 c2 where
    r: "run L xs m1 = Inr (m2, c2)" "wellScheduled m2" "i < length (scheduled m2)"
    "\<not> Done (scheduled m2 ! i)" "advances (scheduled m1 ! i) (scheduled m2 ! i)"
    by blast
  from advances_trans[OF s1(3) r(5)] u r show ?case by simp
qed

lemma active_entry_found:
  assumes "wellScheduled m" and "i < length (scheduled m)" and "\<not> Done (scheduled m ! i)"
  shows "findScheduledIndex (scheduled m) (Number (PR (scheduled m ! i))) = int i"
  using assms findScheduledIndex_active[of "scheduled m" i] by (simp add: wellScheduled_def)

subsection \<open>The search only reads the PR number and the Done flag\<close>

lemma findScheduledFrom_cong:
  "map (\<lambda>s. (Number (PR s), Done s)) ss = map (\<lambda>s. (Number (PR s), Done s)) ss' \<Longrightarrow>
     findScheduledFrom k ss n = findScheduledFrom k ss' n"
proof (induction ss arbitrary: ss' k)
  case Nil
  then show ?case by simp
next
  case (Cons s ss)
  then obtain s' rest where "ss' = s' # rest" by (cases ss') auto
  with Cons show ?case by auto
qed

lemma findScheduledIndex_update:
  assumes "i < length ss" and "Number (PR s') = Number (PR (ss ! i))" and "Done s' = Done (ss ! i)"
  shows "findScheduledIndex (ss[i := s']) n = findScheduledIndex ss n"
proof -
  have "map (\<lambda>s. (Number (PR s), Done s)) (ss[i := s']) = map (\<lambda>s. (Number (PR s), Done s)) ss"
    using assms by (simp add: map_update list_update_same_conv)
  then show ?thesis unfolding findScheduledIndex_def by (rule findScheduledFrom_cong)
qed

subsection \<open>An entry scheduled at the zero time\<close>

lemma preMergeCommentFor_cmdPR: "preMergeCommentFor n c \<Longrightarrow> cmdPR c = Some n"
  by (cases c) simp_all

lemma tickEntry_zero:
  assumes "IsZero (When s)"
  shows "PreMergeCommentPosted (fst (tickEntry L t s)) = PreMergeCommentPosted s"
    and "c \<in> set (snd (tickEntry L t s)) \<Longrightarrow> \<not> preMergeCommentFor n c"
  using assms by (auto simp: tickEntry_def Let_def split: if_splits)

lemma updateAt_posted:
  assumes "\<And>s. PreMergeCommentPosted (f s) = PreMergeCommentPosted s"
  shows "PreMergeCommentPosted (updateAt idx f ss ! j) = PreMergeCommentPosted (ss ! j)"
proof (cases "nat idx < length ss")
  case True
  then show ?thesis using assms by (cases "j = nat idx") (simp_all add: updateAt_def)
next
  case False
  then show ?thesis by (simp add: updateAt_def list_update_beyond)
qed

lemma nontick_step_posted:
  assumes "\<forall>t. x \<noteq> tickMsg t" and "Update L x m = Inr (m', c)" and "j < length (scheduled m)"
  shows "PreMergeCommentPosted (scheduled m' ! j) = PreMergeCommentPosted (scheduled m ! j)
    \<and> (\<forall>c'\<in>set c. \<not> preMergeCommentFor n c')"
proof (cases "resultPR x")
  case None
  from plain_step[OF None assms(1,2)] assms(3) preMergeCommentFor_cmdPR[of n]
  show ?thesis by (auto simp: nth_append)
next
  case (Some k)
  show ?thesis
  proof (cases x)
    case (mergeResultMsg k' e)
    with assms(2) show ?thesis
      by (cases e) (auto simp: updateMergeResult_def Let_def updateAt_posted split: if_splits)
  next
    case (checkMergedMsg k' b e)
    with assms(2) show ?thesis
      by (cases e; cases b) (auto simp: updateCheckMerged_def Let_def updateAt_posted split: if_splits)
  next
    case (commentResultMsg k' b e)
    with assms(2) show ?thesis
      by (cases e; cases b) (auto simp: updateCommentResult_def Let_def updateAt_posted split: if_splits)
  next
    case (disableAutoMergeResultMsg k' e)
    with assms(2) show ?thesis
      by (cases e) (auto simp: updateDisableAutoMergeResult_def Let_def updateAt_posted split: if_splits)
  next
    case (commitSHAMsg k' sha e)
    with assms(2) show ?thesis
      by (cases e) (auto simp: updateCommitSHA_def Let_def updateAt_posted split: if_splits)
  qed (use Some in simp_all)
qed

lemma zero_time_step:
  assumes w: "wellScheduled m" and i: "i < length (scheduled m)"
    and z: "IsZero (When (scheduled m ! i))"
    and np: "\<not> PreMergeCommentPosted (scheduled m ! i)"
    and u: "Update L x m = Inr (m', c)"
  shows "\<not> PreMergeCommentPosted (scheduled m' ! i)
    \<and> (\<not> Done (scheduled m ! i) \<longrightarrow>
         (\<forall>c'\<in>set c. \<not> preMergeCommentFor (Number (PR (scheduled m ! i))) c'))"
proof (cases "\<exists>t. x = tickMsg t")
  case False
  with nontick_step_posted[OF _ u i] np show ?thesis by simp
next
  case True
  then obtain t where x: "x = tickMsg t" by blast
  from w have d: "distinct (activeNumbers (scheduled m))" by (simp add: wellScheduled_def)
  from u x have m': "scheduled m' = fst (tickLoop L t (scheduled m))"
    and c: "c = snd (tickLoop L t (scheduled m)) @ [tickCmd]"
    by (auto simp: updateTick_def split_beta)
  from m' i tickEntry_zero(1)[OF z, of L t] np
  have a: "\<not> PreMergeCommentPosted (scheduled m' ! i)" by (simp add: tickLoop_nth)
  have b: "\<forall>c'\<in>set c. \<not> preMergeCommentFor (Number (PR (scheduled m ! i))) c'"
    if nd: "\<not> Done (scheduled m ! i)"
  proof
    fix c' assume in_c: "c' \<in> set c"
    show "\<not> preMergeCommentFor (Number (PR (scheduled m ! i))) c'"
    proof
      assume p: "preMergeCommentFor (Number (PR (scheduled m ! i))) c'"
      then have pr: "cmdPR c' = Some (Number (PR (scheduled m ! i)))"
        by (rule preMergeCommentFor_cmdPR)
      with in_c c have "c' \<in> set (snd (tickLoop L t (scheduled m)))" by auto
      with pr have "c' \<in> set (filter (\<lambda>c. cmdPR c = Some (Number (PR (scheduled m ! i))))
                                (snd (tickLoop L t (scheduled m))))" by simp
      with tickLoop_cmds_of_entry[OF d i nd, of L t]
      have "c' \<in> set (snd (tickEntry L t (scheduled m ! i)))" by simp
      from tickEntry_zero(2)[OF z this] p show False by blast
    qed
  qed
  from a b show ?thesis by blast
qed

lemma zero_time_run:
  assumes "wellScheduled m" and "i < length (scheduled m)"
    and "IsZero (When (scheduled m ! i))"
    and "\<not> PreMergeCommentPosted (scheduled m ! i)"
  shows "\<exists>m' c. run L ys m = Inr (m', c)
    \<and> i < length (scheduled m')
    \<and> \<not> PreMergeCommentPosted (scheduled m' ! i)
    \<and> (\<not> Done (scheduled m' ! i) \<longrightarrow>
         (\<forall>c'\<in>set c. \<not> preMergeCommentFor (Number (PR (scheduled m ! i))) c'))"
  using assms
proof (induction ys arbitrary: m)
  case Nil
  then show ?case by simp
next
  case (Cons y ys)
  from Update_total[OF Cons.prems(1), of L y] obtain m1 c1 where u: "Update L y m = Inr (m1, c1)"
    by blast
  from Update_wellScheduled[OF Cons.prems(1) u] have w1: "wellScheduled m1" .
  from Update_grows[OF u] Cons.prems(2)
  have i1: "i < length (scheduled m1)" and a1: "advances (scheduled m ! i) (scheduled m1 ! i)"
    by (auto simp: grows_def)
  from a1 Cons.prems(3) have z1: "IsZero (When (scheduled m1 ! i))"
    and pr1: "PR (scheduled m1 ! i) = PR (scheduled m ! i)"
    and keep: "Done (scheduled m ! i) \<Longrightarrow> Done (scheduled m1 ! i)"
    by (auto simp: advances_def)
  from zero_time_step[OF Cons.prems(1,2,3,4) u]
  have np1: "\<not> PreMergeCommentPosted (scheduled m1 ! i)"
    and q1: "\<not> Done (scheduled m ! i) \<Longrightarrow>
         \<forall>c'\<in>set c1. \<not> preMergeCommentFor (Number (PR (scheduled m ! i))) c'" by simp_all
  from Cons.IH[OF w1 i1 z1 np1] obtain m2 c2 where
    r: "run L ys m1 = Inr (m2, c2)" "i < length (scheduled m2)"
      "\<not> PreMergeCommentPosted (scheduled m2 ! i)"
      "\<not> Done (scheduled m2 ! i) \<longrightarrow>
         (\<forall>c'\<in>set c2. \<not> preMergeCommentFor (Number (PR (scheduled m1 ! i))) c')"
    by blast
  from run_grows[OF r(1)] i1
  have "advances (scheduled m1 ! i) (scheduled m2 ! i)" by (auto simp: grows_def)
  then have keep2: "Done (scheduled m1 ! i) \<Longrightarrow> Done (scheduled m2 ! i)"
    by (auto simp: advances_def)
  have "\<not> Done (scheduled m2 ! i) \<longrightarrow>
         (\<forall>c'\<in>set (c1 @ c2). \<not> preMergeCommentFor (Number (PR (scheduled m ! i))) c')"
    using q1 r(4) keep keep2 pr1 by auto
  with u r(1,2,3) show ?case by simp
qed

subsection \<open>An entry scheduled at another time\<close>

lemma comment_due_after_scheduled_time:
  assumes "wellScheduled m" and "i < length (scheduled m)"
    and "\<not> Done (scheduled m ! i)"
    and "\<not> PreMergeCommentPosted (scheduled m ! i)"
    and "\<not> MergeTriggered (scheduled m ! i)"
    and "\<not> IsZero (When (scheduled m ! i))"
    and "\<forall>x\<in>set xs. beforeDue (When (scheduled m ! i)) (Number (PR (scheduled m ! i))) x"
    and "When (scheduled m ! i) < t"
  shows "\<exists>m1 c1 m2 c2.
      run L xs m = Inr (m1, c1)
    \<and> (\<forall>c\<in>set c1. cmdPR c \<noteq> Some (Number (PR (scheduled m ! i))))
    \<and> \<not> PreMergeCommentPosted (scheduled m1 ! i)
    \<and> Update L (tickMsg t) m1 = Inr (m2, c2)
    \<and> filter (\<lambda>c. cmdPR c = Some (Number (PR (scheduled m ! i)))) c2
         = [preMergeComment L (scheduled m ! i)]
    \<and> PreMergeCommentPosted (scheduled m2 ! i)"
proof -
  define s where "s = scheduled m ! i"
  have quiet: "\<And>t'. t' \<le> When s \<Longrightarrow> snd (tickEntry L t' s) = []"
    using assms(3,4,5) by (simp add: s_def tickEntry_def After_def Let_def)
  have w: "\<forall>x\<in>set xs. waiting L (Number (PR s)) s x"
    using assms(7) beforeDue_waiting[OF _ quiet] by (auto simp: s_def)
  have same: "sameButMessage s (scheduled m ! i)" by (simp add: s_def sameButMessage_refl)
  from assms(3) have nd: "\<not> Done s" by (simp add: s_def)
  from run_waiting[OF assms(1,2) same nd w] obtain m1 c1 where
    r: "run L xs m = Inr (m1, c1)" "wellScheduled m1" "i < length (scheduled m1)"
      "sameButMessage s (scheduled m1 ! i)" "\<forall>c'\<in>set c1. cmdPR c' \<noteq> Some (Number (PR s))"
    by blast
  note f = sameButMessage_fields[OF r(4)]
  from f nd have nd1: "\<not> Done (scheduled m1 ! i)" by simp
  from tick_step[OF r(2,3) nd1, of L t] obtain m2 c2 where
    t: "Update L (tickMsg t) m1 = Inr (m2, c2)"
      "scheduled m2 ! i = fst (tickEntry L t (scheduled m1 ! i))"
      "filter (\<lambda>c. cmdPR c = Some (Number (PR (scheduled m1 ! i)))) c2
         = snd (tickEntry L t (scheduled m1 ! i))"
    by blast
  have fire: "snd (tickEntry L t s) = [preMergeComment L s]"
    using assms(3,4,5,6,8) by (simp add: s_def tickEntry_def After_def Let_def preMergeComment_def)
  have posted: "PreMergeCommentPosted (fst (tickEntry L t (scheduled m1 ! i)))"
    using f nd assms(4,6,8) by (simp add: s_def tickEntry_def After_def Let_def)
  from t(3) tickEntry_sameButMessage[OF r(4), of L t] fire f
  have "filter (\<lambda>c. cmdPR c = Some (Number (PR s))) c2 = [preMergeComment L s]" by simp
  with r(1,5) t(1,2) posted f assms(4) show ?thesis unfolding s_def by auto
qed

section \<open>The claims\<close>

subsection \<open>C1: at most one active entry per PR\<close>

text \<open>
  Claim C1. In every state the program can reach, and for every PR number \<open>n\<close>, at most one
  entry of the scheduled list has number \<open>n\<close> and is not \<open>Done\<close>. An attempt to schedule a PR
  that has an active entry (enter, in the listing, on such a PR) is rejected: the step only
  sets the status message (and clears the quit warning); the scheduled list, the mode and
  the PR being scheduled are unchanged and no command is issued.
\<close>

theorem one_active_entry_per_pr:
  assumes "reachable L m"
  shows "length (filter (\<lambda>s. Number (PR s) = n \<and> \<not> Done s) (scheduled m)) \<le> 1
    \<and> (mode m = modeListing \<and> list_SelectedItem L (mlist m) = Some (prItem p)
         \<and> Number p \<in> set (activeNumbers (scheduled m)) \<longrightarrow>
       Update L (KeyMsg k ''enter'') m =
         Inr (m\<lparr>quitWarned := False,
                status := ''PR #'' @ Itoa (Number p) @ '' already has a scheduled merge''\<rparr>, []))"
proof (intro conjI impI)
  from reachable_wellScheduled[OF assms]
  show "length (filter (\<lambda>s. Number (PR s) = n \<and> \<not> Done s) (scheduled m)) \<le> 1"
    using distinct_activeNumbers_count[of "scheduled m" n] by (simp add: wellScheduled_def)
next
  assume a: "mode m = modeListing \<and> list_SelectedItem L (mlist m) = Some (prItem p)
         \<and> Number p \<in> set (activeNumbers (scheduled m))"
  then have "0 \<le> findScheduledIndex (scheduled m) (Number p)"
    using findScheduledIndex_neg[of "scheduled m" "Number p"] by simp
  with a show "Update L (KeyMsg k ''enter'') m =
         Inr (m\<lparr>quitWarned := False,
                status := ''PR #'' @ Itoa (Number p) @ '' already has a scheduled merge''\<rparr>, [])"
    by (simp add: updateListingKey_def)
qed

theorem one_active_entry_per_pr_witness:
  "reachable demoLib demoScheduled
   \<and> scheduled demoScheduled = [newScheduledMerge demoPR 1000]
   \<and> length (filter (\<lambda>s. Number (PR s) = 7 \<and> \<not> Done s) (scheduled demoScheduled)) \<le> 1
   \<and> mode demoScheduled = modeListing
   \<and> list_SelectedItem demoLib (mlist demoScheduled) = Some (prItem demoPR)
   \<and> Number demoPR \<in> set (activeNumbers (scheduled demoScheduled))
   \<and> Update demoLib (KeyMsg KeyEnter ''enter'') demoScheduled =
       Inr (demoScheduled\<lparr>quitWarned := False,
              status := ''PR #'' @ Itoa (Number demoPR) @ '' already has a scheduled merge''\<rparr>, [])"
proof -
  have ok: "run demoLib demoScheduleNow (initialModel demoLib 1000) \<noteq> Inl NilPointerDereference"
    by code_simp
  have r: "reachable demoLib demoScheduled"
    unfolding demoScheduled_def by (rule afterRun_reachable[OF reachable_init ok])
  have s: "scheduled demoScheduled = [newScheduledMerge demoPR 1000]" by code_simp
  have h: "mode demoScheduled = modeListing"
    "list_SelectedItem demoLib (mlist demoScheduled) = Some (prItem demoPR)"
    "Number demoPR \<in> set (activeNumbers (scheduled demoScheduled))"
    by code_simp+
  from one_active_entry_per_pr[OF r, of 7 demoPR KeyEnter] r s h show ?thesis by simp
qed

subsection \<open>C9: results without an active entry are dropped\<close>

text \<open>
  Claim C9. When the result of an asynchronous action (merge, state check, comment, disable,
  commit SHA) arrives for a PR number that has no active (not \<open>Done\<close>) entry in the scheduled
  list, \<open>Update\<close> returns the model unchanged and issues no command.
\<close>

theorem result_without_active_entry_dropped:
  assumes "resultPR x = Some n" and "n \<notin> set (activeNumbers (scheduled m))"
  shows "Update L x m = Inr (m, [])"
proof -
  from assms(2) have neg: "\<not> 0 \<le> findScheduledIndex (scheduled m) n"
    by (simp add: findScheduledIndex_neg)
  from assms(1) show ?thesis
  proof (cases x)
    case (mergeResultMsg k e)
    with assms(1) neg show ?thesis by (simp add: updateMergeResult_def)
  next
    case (checkMergedMsg k b e)
    with assms(1) neg show ?thesis by (simp add: updateCheckMerged_def)
  next
    case (commentResultMsg k b e)
    with assms(1) neg show ?thesis by (simp add: updateCommentResult_def)
  next
    case (disableAutoMergeResultMsg k e)
    with assms(1) neg show ?thesis by (simp add: updateDisableAutoMergeResult_def)
  next
    case (commitSHAMsg k sha e)
    with assms(1) neg show ?thesis by (simp add: updateCommitSHA_def)
  qed simp_all
qed

theorem result_without_active_entry_dropped_witness:
  "resultPR (commitSHAMsg 9 ''abc'' None) = Some 9
   \<and> 9 \<notin> set (activeNumbers (scheduled demoScheduled))
   \<and> Update demoLib (commitSHAMsg 9 ''abc'' None) demoScheduled = Inr (demoScheduled, [])"
proof -
  have h: "9 \<notin> set (activeNumbers (scheduled demoScheduled))" by code_simp
  from result_without_active_entry_dropped[of "commitSHAMsg 9 ''abc'' None" 9 demoScheduled demoLib] h
  show ?thesis by simp
qed

subsection \<open>C7: the result of the pre-merge comment triggers the merge\<close>

text \<open>
  Claim C7. When the result of the pre-merge comment arrives for a PR with an active entry,
  the merge command for that PR is the command issued, whether the comment succeeded
  (\<open>err = None\<close>) or failed (\<open>err = Some e\<close>). The entry found gets \<open>MergeTriggered\<close> and a new
  \<open>LastMessage\<close>, which alone records a failure of the comment; its other fields are
  unchanged, so it is still not \<open>Done\<close>.
\<close>

theorem premerge_comment_result_triggers_merge:
  assumes "n \<in> set (activeNumbers (scheduled m))"
  shows "\<exists>m'. Update L (commentResultMsg n True err) m = Inr (m', [mergePRCmd n])
     \<and> nat (findScheduledIndex (scheduled m) n) < length (scheduled m)
     \<and> Number (PR (scheduled m ! nat (findScheduledIndex (scheduled m) n))) = n
     \<and> scheduled m' = (scheduled m)
          [nat (findScheduledIndex (scheduled m) n) :=
             (scheduled m ! nat (findScheduledIndex (scheduled m) n))
               \<lparr>LastMessage :=
                  (case err of
                     Some e \<Rightarrow> ''Comment failed: '' @ e @ '' (continuing with merge)''
                   | None \<Rightarrow> ''Pre-merge comment posted, triggering auto-merge...''),
                MergeTriggered := True\<rparr>]
     \<and> MergeTriggered (scheduled m' ! nat (findScheduledIndex (scheduled m) n))
     \<and> \<not> Done (scheduled m' ! nat (findScheduledIndex (scheduled m) n))"
proof -
  from assms have pos: "0 \<le> findScheduledIndex (scheduled m) n"
    using findScheduledIndex_neg[of "scheduled m" n] by auto
  note f = findScheduledIndex_found[OF pos]
  show ?thesis
    using pos f by (cases err) (simp_all add: updateCommentResult_def updateAt_def Let_def)
qed

theorem premerge_comment_result_triggers_merge_witness:
  "7 \<in> set (activeNumbers (scheduled demoScheduled))
   \<and> cmdsOfRun demoLib [commentResultMsg 7 True (Some ''gh pr comment failed'')] demoScheduled = [mergePRCmd 7]
   \<and> cmdsOfRun demoLib [commentResultMsg 7 True None] demoScheduled = [mergePRCmd 7]"
proof -
  have h: "7 \<in> set (activeNumbers (scheduled demoScheduled))" by code_simp
  from premerge_comment_result_triggers_merge[OF h, of demoLib "Some ''gh pr comment failed''"]
       premerge_comment_result_triggers_merge[OF h, of demoLib None] h
  show ?thesis by (auto simp: cmdsOfRun_def)
qed

subsection \<open>C6: entries only advance, and a Done entry is final\<close>

text \<open>
  Claim C6. Over any sequence of messages, every entry of the scheduled list stays at its
  index and only advances: its PR and scheduled time are unchanged, none of the flags
  \<open>PreMergeCommentPosted\<close>, \<open>MergeTriggered\<close>, \<open>CheckScheduled\<close>, \<open>FailureHandled\<close>, \<open>Done\<close> goes back
  from true to false, so the stage read from the flags never decreases; and an entry that
  is \<open>Done\<close> is final: every one of its fields is the same after the run.
\<close>

theorem entries_only_advance:
  assumes "run L xs m = Inr (m', c)" and "i < length (scheduled m)"
  shows "i < length (scheduled m')
    \<and> advances (scheduled m ! i) (scheduled m' ! i)
    \<and> stage (scheduled m ! i) \<le> stage (scheduled m' ! i)
    \<and> (Done (scheduled m ! i) \<longrightarrow> scheduled m' ! i = scheduled m ! i)"
proof -
  from run_grows[OF assms(1)] assms(2)
  have "i < length (scheduled m')" and a: "advances (scheduled m ! i) (scheduled m' ! i)"
    by (auto simp: grows_def)
  moreover from a have "stage (scheduled m ! i) \<le> stage (scheduled m' ! i)"
    by (rule advances_stage)
  moreover from a have "Done (scheduled m ! i) \<longrightarrow> scheduled m' ! i = scheduled m ! i"
    by (simp add: advances_def)
  ultimately show ?thesis by simp
qed

theorem entries_only_advance_witness:
  "run demoLib demoFailMerge demoScheduled = Inr (demoMergeFailed, cmdsOfRun demoLib demoFailMerge demoScheduled)
   \<and> 0 < length (scheduled demoScheduled)
   \<and> stage (scheduled demoScheduled ! 0) = 0
   \<and> stage (scheduled demoMergeFailed ! 0) = 5
   \<and> advances (scheduled demoScheduled ! 0) (scheduled demoMergeFailed ! 0)
   \<and> run demoLib demoLater demoMergeFailed
        = Inr (afterRun demoLib demoLater demoMergeFailed, cmdsOfRun demoLib demoLater demoMergeFailed)
   \<and> Done (scheduled demoMergeFailed ! 0)
   \<and> scheduled (afterRun demoLib demoLater demoMergeFailed) ! 0 = scheduled demoMergeFailed ! 0"
proof -
  have "run demoLib demoFailMerge demoScheduled \<noteq> Inl NilPointerDereference" by code_simp
  from run_afterRun[OF this]
  have r1: "run demoLib demoFailMerge demoScheduled
              = Inr (demoMergeFailed, cmdsOfRun demoLib demoFailMerge demoScheduled)"
    by (simp add: demoMergeFailed_def)
  have "run demoLib demoLater demoMergeFailed \<noteq> Inl NilPointerDereference" by code_simp
  from run_afterRun[OF this]
  have r2: "run demoLib demoLater demoMergeFailed
              = Inr (afterRun demoLib demoLater demoMergeFailed, cmdsOfRun demoLib demoLater demoMergeFailed)" .
  have l1: "0 < length (scheduled demoScheduled)" by code_simp
  have l2: "0 < length (scheduled demoMergeFailed)" by code_simp
  have s0: "stage (scheduled demoScheduled ! 0) = 0" by code_simp
  have s5: "stage (scheduled demoMergeFailed ! 0) = 5" by code_simp
  have d: "Done (scheduled demoMergeFailed ! 0)" by code_simp
  from entries_only_advance[OF r1 l1] entries_only_advance[OF r2 l2] r1 r2 l1 s0 s5 d
  show ?thesis by simp
qed

subsection \<open>C10: confirming the custom time entry\<close>

text \<open>
  Claim C10. In the custom time entry (mode \<open>modeScheduling\<close> of a reachable state), the enter
  key does the following. When the trimmed text is empty or its lower-case form is \<open>now\<close>, an
  entry for the PR being scheduled is appended with \<open>When\<close> equal to the current tick time
  \<open>m.now\<close>, every flag false, \<open>CheckAt\<close> the zero time and an empty message, and the program
  returns to the listing. When the trimmed text is anything else and
  does not parse in the layout \<open>2006-01-02 15:04\<close>, only the status message changes (to the
  invalid-format message): no entry is created, the scheduled list and the mode are
  unchanged, and no command is issued.
\<close>

theorem custom_time_entry:
  assumes "reachable L m" and "mode m = modeScheduling"
  shows "(rawInput L m = [] \<or> strings_ToLower L (rawInput L m) = ''now'' \<longrightarrow>
           (\<exists>p. schedFor m = Some p
              \<and> Update L (KeyMsg KeyEnter str) m =
                  Inr (m\<lparr>scheduled := scheduled m @
                                       [\<lparr>PR = p, When = now m, PreMergeCommentPosted = False,
                                        MergeTriggered = False, CheckScheduled = False,
                                        CheckAt = 0, FailureHandled = False, Done = False,
                                        LastMessage = []\<rparr>],
                         status := ''Scheduled auto-merge for PR #'' @ Itoa (Number p) @ '' at ''
                                     @ time_Format L ''2006-01-02 15:04'' (now m),
                         mode := modeListing,
                         input := input_Blur L (input m),
                         schedFor := None\<rparr>, [])))
    \<and> (rawInput L m \<noteq> [] \<and> strings_ToLower L (rawInput L m) \<noteq> ''now''
         \<and> time_ParseInLocation L ''2006-01-02 15:04'' (rawInput L m) = Inl e \<longrightarrow>
           Update L (KeyMsg KeyEnter str) m =
             Inr (m\<lparr>status := ''Invalid time format. Use YYYY-MM-DD HH:MM or 'now'.''\<rparr>, []))"
proof -
  from reachable_wellScheduled[OF assms(1)] assms(2)
  obtain p where p: "schedFor m = Some p"
    by (cases "schedFor m") (auto simp: wellScheduled_def)
  show ?thesis
  proof (intro conjI impI)
    assume "rawInput L m = [] \<or> strings_ToLower L (rawInput L m) = ''now''"
    with p assms(2) show "\<exists>p. schedFor m = Some p
              \<and> Update L (KeyMsg KeyEnter str) m =
                  Inr (m\<lparr>scheduled := scheduled m @
                                       [\<lparr>PR = p, When = now m, PreMergeCommentPosted = False,
                                        MergeTriggered = False, CheckScheduled = False,
                                        CheckAt = 0, FailureHandled = False, Done = False,
                                        LastMessage = []\<rparr>],
                         status := ''Scheduled auto-merge for PR #'' @ Itoa (Number p) @ '' at ''
                                     @ time_Format L ''2006-01-02 15:04'' (now m),
                         mode := modeListing,
                         input := input_Blur L (input m),
                         schedFor := None\<rparr>, [])"
      by (auto simp: updateSchedulingKey_def rawInput_def Let_def newScheduledMerge_def)
  next
    assume "rawInput L m \<noteq> [] \<and> strings_ToLower L (rawInput L m) \<noteq> ''now''
         \<and> time_ParseInLocation L ''2006-01-02 15:04'' (rawInput L m) = Inl e"
    with assms(2) show "Update L (KeyMsg KeyEnter str) m =
             Inr (m\<lparr>status := ''Invalid time format. Use YYYY-MM-DD HH:MM or 'now'.''\<rparr>, [])"
      by (simp add: updateSchedulingKey_def rawInput_def Let_def)
  qed
qed

theorem custom_time_entry_witness:
  "reachable demoLib (demoTyped '' NoW '')
   \<and> mode (demoTyped '' NoW '') = modeScheduling
   \<and> strings_ToLower demoLib (rawInput demoLib (demoTyped '' NoW '')) = ''now''
   \<and> Update demoLib (KeyMsg KeyEnter ''enter'') (demoTyped '' NoW '') =
        Inr ((demoTyped '' NoW '')
               \<lparr>scheduled := scheduled (demoTyped '' NoW '') @
                    [\<lparr>PR = demoPR, When = 1000, PreMergeCommentPosted = False,
                       MergeTriggered = False, CheckScheduled = False,
                       CheckAt = 0, FailureHandled = False, Done = False,
                       LastMessage = []\<rparr>],
                status := ''Scheduled auto-merge for PR #'' @ Itoa 7 @ '' at ''
                            @ time_Format demoLib ''2006-01-02 15:04'' 1000,
                mode := modeListing,
                input := input_Blur demoLib (input (demoTyped '' NoW '')),
                schedFor := None\<rparr>, [])
   \<and> reachable demoLib (demoTyped ''soon'')
   \<and> mode (demoTyped ''soon'') = modeScheduling
   \<and> rawInput demoLib (demoTyped ''soon'') \<noteq> []
   \<and> strings_ToLower demoLib (rawInput demoLib (demoTyped ''soon'')) \<noteq> ''now''
   \<and> time_ParseInLocation demoLib ''2006-01-02 15:04'' (rawInput demoLib (demoTyped ''soon''))
        = Inl ''cannot parse''
   \<and> Update demoLib (KeyMsg KeyEnter ''enter'') (demoTyped ''soon'') =
        Inr ((demoTyped ''soon'')
               \<lparr>status := ''Invalid time format. Use YYYY-MM-DD HH:MM or 'now'.''\<rparr>, [])"
proof -
  have "run demoLib (demoTypeCustom '' NoW '') (initialModel demoLib 1000) \<noteq> Inl NilPointerDereference"
    by code_simp
  from afterRun_reachable[OF reachable_init this]
  have r1: "reachable demoLib (demoTyped '' NoW '')" by (simp add: demoTyped_def)
  have "run demoLib (demoTypeCustom ''soon'') (initialModel demoLib 1000) \<noteq> Inl NilPointerDereference"
    by code_simp
  from afterRun_reachable[OF reachable_init this]
  have r2: "reachable demoLib (demoTyped ''soon'')" by (simp add: demoTyped_def)
  have m1: "mode (demoTyped '' NoW '') = modeScheduling" by code_simp
  have m2: "mode (demoTyped ''soon'') = modeScheduling" by code_simp
  have h1: "strings_ToLower demoLib (rawInput demoLib (demoTyped '' NoW '')) = ''now''" by code_simp
  have p1: "schedFor (demoTyped '' NoW '') = Some demoPR" by code_simp
  have n1: "now (demoTyped '' NoW '') = 1000" by code_simp
  have k1: "Number demoPR = 7" by code_simp
  have h2: "rawInput demoLib (demoTyped ''soon'') \<noteq> []"
    "strings_ToLower demoLib (rawInput demoLib (demoTyped ''soon'')) \<noteq> ''now''"
    "time_ParseInLocation demoLib ''2006-01-02 15:04'' (rawInput demoLib (demoTyped ''soon''))
        = Inl ''cannot parse''"
    by code_simp+
  from custom_time_entry[OF r1 m1, where str = "''enter''"] h1 p1 n1 k1
  have a: "Update demoLib (KeyMsg KeyEnter ''enter'') (demoTyped '' NoW '') =
        Inr ((demoTyped '' NoW '')
               \<lparr>scheduled := scheduled (demoTyped '' NoW '') @
                    [\<lparr>PR = demoPR, When = 1000, PreMergeCommentPosted = False,
                       MergeTriggered = False, CheckScheduled = False,
                       CheckAt = 0, FailureHandled = False, Done = False,
                       LastMessage = []\<rparr>],
                status := ''Scheduled auto-merge for PR #'' @ Itoa 7 @ '' at ''
                            @ time_Format demoLib ''2006-01-02 15:04'' 1000,
                mode := modeListing,
                input := input_Blur demoLib (input (demoTyped '' NoW '')),
                schedFor := None\<rparr>, [])"
    by auto
  from custom_time_entry[OF r2 m2, where str = "''enter''" and e = "''cannot parse''"] h2
  have b: "Update demoLib (KeyMsg KeyEnter ''enter'') (demoTyped ''soon'') =
        Inr ((demoTyped ''soon'')
               \<lparr>status := ''Invalid time format. Use YYYY-MM-DD HH:MM or 'now'.''\<rparr>, [])"
    by blast
  from r1 r2 m1 m2 h1 h2 a b show ?thesis by blast
qed

subsection \<open>C3: the pre-merge comment is issued on the first tick after the scheduled time\<close>

text \<open>
  Claim C3, as stated, fails for an entry whose scheduled time is Go's zero time: the tick
  handler requires \<open>!s.When.IsZero()\<close>, so such an entry is never due. The user reaches it by
  typing the first minute of year 1 as the custom time: PR 7 is then scheduled at time 0,
  and ticks at the times 5000, 6000 and 7000, all after 0, issue nothing but the next tick.
\<close>

theorem zero_time_never_due:
  "reachable demoLib demoZero
   \<and> map When (scheduled demoZero) = [0]
   \<and> map Done (scheduled demoZero) = [False]
   \<and> map PreMergeCommentPosted (scheduled demoZero) = [False]
   \<and> When (scheduled demoZero ! 0) < 5000
   \<and> cmdsOfRun demoLib [tickMsg 5000, tickMsg 6000, tickMsg 7000] demoZero = [tickCmd, tickCmd, tickCmd]"
proof -
  have "run demoLib (demoTypeCustom ''0001-01-01 00:00'' @ [KeyMsg KeyEnter ''enter''])
          (initialModel demoLib 1000) \<noteq> Inl NilPointerDereference"
    by code_simp
  from afterRun_reachable[OF reachable_init this]
  have r: "reachable demoLib demoZero" by (simp add: demoZero_def)
  have "map When (scheduled demoZero) = [0]
   \<and> map Done (scheduled demoZero) = [False]
   \<and> map PreMergeCommentPosted (scheduled demoZero) = [False]
   \<and> When (scheduled demoZero ! 0) < 5000
   \<and> cmdsOfRun demoLib [tickMsg 5000, tickMsg 6000, tickMsg 7000] demoZero = [tickCmd, tickCmd, tickCmd]"
    by code_simp
  with r show ?thesis by (rule conjI)
qed

text \<open>
  Claim C3, amended, in two parts, for an entry whose pre-merge comment was not issued, in
  a model that satisfies the invariant of the registry, \<open>wellScheduled\<close>, as every reachable
  state does (lemma \<open>reachable_wellScheduled\<close>).

  First part: the scheduled time \<open>T\<close> of the entry is not the zero time, the entry is not
  \<open>Done\<close> and its merge was not issued. While the messages that arrive (\<open>xs\<close>) are ticks with
  \<open>now \<le> T\<close> (so also \<open>now = T\<close>) and messages that are not the result of an action on this
  PR (results of disabling auto-merge apart), no command is addressed to the PR and the
  comment stays unposted. On the next tick with \<open>now > T\<close> the commands addressed to the PR
  are exactly the pre-merge comment, and the entry records it as posted.

  Second part: the scheduled time of the entry is the zero time. Then the entry is never
  due: whatever messages arrive (\<open>ys\<close>: any ticks, at any times, results and keys), the
  entry never records the comment as posted, and as long as the entry is not \<open>Done\<close> no
  pre-merge comment is issued for its PR.
\<close>

theorem premerge_comment_on_first_tick_after:
  assumes "wellScheduled m" and "i < length (scheduled m)"
    and "\<not> PreMergeCommentPosted (scheduled m ! i)"
  shows "(\<not> IsZero (When (scheduled m ! i))
          \<and> \<not> Done (scheduled m ! i) \<and> \<not> MergeTriggered (scheduled m ! i)
          \<and> (\<forall>x\<in>set xs. beforeDue (When (scheduled m ! i)) (Number (PR (scheduled m ! i))) x)
          \<and> When (scheduled m ! i) < t \<longrightarrow>
           (\<exists>m1 c1 m2 c2.
               run L xs m = Inr (m1, c1)
             \<and> (\<forall>c\<in>set c1. cmdPR c \<noteq> Some (Number (PR (scheduled m ! i))))
             \<and> \<not> PreMergeCommentPosted (scheduled m1 ! i)
             \<and> Update L (tickMsg t) m1 = Inr (m2, c2)
             \<and> filter (\<lambda>c. cmdPR c = Some (Number (PR (scheduled m ! i)))) c2
                  = [preMergeComment L (scheduled m ! i)]
             \<and> PreMergeCommentPosted (scheduled m2 ! i)))
    \<and> (IsZero (When (scheduled m ! i)) \<longrightarrow>
           (\<exists>m' c.
               run L ys m = Inr (m', c)
             \<and> i < length (scheduled m')
             \<and> \<not> PreMergeCommentPosted (scheduled m' ! i)
             \<and> (\<not> Done (scheduled m' ! i) \<longrightarrow>
                  (\<forall>c'\<in>set c. \<not> preMergeCommentFor (Number (PR (scheduled m ! i))) c'))))"
proof (intro conjI impI)
  assume a: "\<not> IsZero (When (scheduled m ! i))
          \<and> \<not> Done (scheduled m ! i) \<and> \<not> MergeTriggered (scheduled m ! i)
          \<and> (\<forall>x\<in>set xs. beforeDue (When (scheduled m ! i)) (Number (PR (scheduled m ! i))) x)
          \<and> When (scheduled m ! i) < t"
  then have nz: "\<not> IsZero (When (scheduled m ! i))" and nd: "\<not> Done (scheduled m ! i)"
    and nm: "\<not> MergeTriggered (scheduled m ! i)"
    and b: "\<forall>x\<in>set xs. beforeDue (When (scheduled m ! i)) (Number (PR (scheduled m ! i))) x"
    and lt: "When (scheduled m ! i) < t" by simp_all
  from comment_due_after_scheduled_time[OF assms(1,2) nd assms(3) nm nz b lt, of L]
  show "\<exists>m1 c1 m2 c2.
               run L xs m = Inr (m1, c1)
             \<and> (\<forall>c\<in>set c1. cmdPR c \<noteq> Some (Number (PR (scheduled m ! i))))
             \<and> \<not> PreMergeCommentPosted (scheduled m1 ! i)
             \<and> Update L (tickMsg t) m1 = Inr (m2, c2)
             \<and> filter (\<lambda>c. cmdPR c = Some (Number (PR (scheduled m ! i)))) c2
                  = [preMergeComment L (scheduled m ! i)]
             \<and> PreMergeCommentPosted (scheduled m2 ! i)" .
next
  assume z: "IsZero (When (scheduled m ! i))"
  from zero_time_run[OF assms(1,2) z assms(3), of L ys]
  show "\<exists>m' c.
               run L ys m = Inr (m', c)
             \<and> i < length (scheduled m')
             \<and> \<not> PreMergeCommentPosted (scheduled m' ! i)
             \<and> (\<not> Done (scheduled m' ! i) \<longrightarrow>
                  (\<forall>c'\<in>set c. \<not> preMergeCommentFor (Number (PR (scheduled m ! i))) c'))" .
qed

theorem premerge_comment_on_first_tick_after_witness:
  "wellScheduled demoScheduled \<and> 0 < length (scheduled demoScheduled)
   \<and> \<not> Done (scheduled demoScheduled ! 0)
   \<and> \<not> PreMergeCommentPosted (scheduled demoScheduled ! 0)
   \<and> \<not> MergeTriggered (scheduled demoScheduled ! 0)
   \<and> \<not> IsZero (When (scheduled demoScheduled ! 0))
   \<and> list_all (beforeDue 1000 7) demoWaiting
   \<and> When (scheduled demoScheduled ! 0) = 1000
   \<and> Number (PR (scheduled demoScheduled ! 0)) = 7
   \<and> (\<exists>m1 c1 m2 c2.
        run demoLib demoWaiting demoScheduled = Inr (m1, c1)
      \<and> filter (\<lambda>c. cmdPR c = Some 7) c1 = []
      \<and> Update demoLib (tickMsg 1001) m1 = Inr (m2, c2)
      \<and> filter (\<lambda>c. cmdPR c = Some 7) c2 = [preMergeComment demoLib (scheduled demoScheduled ! 0)])
   \<and> wellScheduled demoZero \<and> 0 < length (scheduled demoZero)
   \<and> \<not> PreMergeCommentPosted (scheduled demoZero ! 0)
   \<and> IsZero (When (scheduled demoZero ! 0))
   \<and> Number (PR (scheduled demoZero ! 0)) = 7
   \<and> \<not> Done (scheduled (afterRun demoLib demoAfterZero demoZero) ! 0)
   \<and> \<not> PreMergeCommentPosted (scheduled (afterRun demoLib demoAfterZero demoZero) ! 0)
   \<and> filter (preMergeCommentFor 7) (cmdsOfRun demoLib demoAfterZero demoZero) = []"
proof -
  have h: "wellScheduled demoScheduled" "0 < length (scheduled demoScheduled)"
    "\<not> PreMergeCommentPosted (scheduled demoScheduled ! 0)"
    by code_simp+
  have g: "\<not> IsZero (When (scheduled demoScheduled ! 0))"
    "\<not> Done (scheduled demoScheduled ! 0)"
    "\<not> MergeTriggered (scheduled demoScheduled ! 0)"
    by code_simp+
  have e: "When (scheduled demoScheduled ! 0) = 1000" "Number (PR (scheduled demoScheduled ! 0)) = 7"
    by code_simp+
  have b: "list_all (beforeDue 1000 7) demoWaiting" by code_simp
  then have b': "\<forall>x\<in>set demoWaiting.
      beforeDue (When (scheduled demoScheduled ! 0)) (Number (PR (scheduled demoScheduled ! 0))) x"
    by (simp add: e list_all_iff)
  have lt: "When (scheduled demoScheduled ! 0) < 1001" by (simp add: e)
  from premerge_comment_on_first_tick_after[OF h, where L = demoLib and xs = demoWaiting
      and t = 1001, THEN conjunct1] g b' lt
  obtain m1 c1 m2 c2 where
    r: "run demoLib demoWaiting demoScheduled = Inr (m1, c1)"
       "\<forall>c\<in>set c1. cmdPR c \<noteq> Some (Number (PR (scheduled demoScheduled ! 0)))"
       "Update demoLib (tickMsg 1001) m1 = Inr (m2, c2)"
       "filter (\<lambda>c. cmdPR c = Some (Number (PR (scheduled demoScheduled ! 0)))) c2
          = [preMergeComment demoLib (scheduled demoScheduled ! 0)]"
    by blast
  from r(2) have "filter (\<lambda>c. cmdPR c = Some 7) c1 = []" by (simp add: e filter_empty_conv)
  with r(1,3,4) have A: "\<exists>m1 c1 m2 c2.
        run demoLib demoWaiting demoScheduled = Inr (m1, c1)
      \<and> filter (\<lambda>c. cmdPR c = Some 7) c1 = []
      \<and> Update demoLib (tickMsg 1001) m1 = Inr (m2, c2)
      \<and> filter (\<lambda>c. cmdPR c = Some 7) c2 = [preMergeComment demoLib (scheduled demoScheduled ! 0)]"
    unfolding e by blast
  have hz: "wellScheduled demoZero" "0 < length (scheduled demoZero)"
    "\<not> PreMergeCommentPosted (scheduled demoZero ! 0)"
    by code_simp+
  have z: "IsZero (When (scheduled demoZero ! 0))" by code_simp
  have nz: "Number (PR (scheduled demoZero ! 0)) = 7" by code_simp
  have nd: "\<not> Done (scheduled (afterRun demoLib demoAfterZero demoZero) ! 0)" by code_simp
  from premerge_comment_on_first_tick_after[OF hz, where L = demoLib and ys = demoAfterZero,
      THEN conjunct2] z
  obtain m' c where
    q: "run demoLib demoAfterZero demoZero = Inr (m', c)"
       "\<not> PreMergeCommentPosted (scheduled m' ! 0)"
       "\<not> Done (scheduled m' ! 0) \<longrightarrow>
          (\<forall>c'\<in>set c. \<not> preMergeCommentFor (Number (PR (scheduled demoZero ! 0))) c')"
    by blast
  from q(1) have m': "afterRun demoLib demoAfterZero demoZero = m'"
    and c: "cmdsOfRun demoLib demoAfterZero demoZero = c"
    by (simp_all add: afterRun_def cmdsOfRun_def)
  from q(2) m' have B1: "\<not> PreMergeCommentPosted (scheduled (afterRun demoLib demoAfterZero demoZero) ! 0)"
    by simp
  from q(3) nd m' c nz
  have B2: "filter (preMergeCommentFor 7) (cmdsOfRun demoLib demoAfterZero demoZero) = []"
    by (simp add: filter_empty_conv)
  from h g e b A hz z nz nd B1 B2 show ?thesis by blast
qed

subsection \<open>C4: the state check is issued on the first tick after CheckAt\<close>

text \<open>
  Claim C4. When the successful result of the merge trigger arrives for the active entry
  of a PR, \<open>CheckAt\<close> becomes the time of that moment, as the program knows it (\<open>m.now\<close>, the
  time of the last tick), plus 60 seconds, and no command is issued. From then on, while
  the messages that arrive are ticks with \<open>now \<le> CheckAt\<close> and messages that are not the
  result of an action on this PR (results of disabling auto-merge apart), no command is
  addressed to the PR and the check stays unscheduled; on the next tick with
  \<open>now > CheckAt\<close> the commands addressed to the PR are exactly the state check.
  The entry is in the state in which the program issues the merge (comment posted, merge
  triggered, check not scheduled), and the clock reads a time after Go's zero time, as
  every reading of a real clock does. The model satisfies the invariant of the registry,
  \<open>wellScheduled\<close>, as every reachable state does (lemma \<open>reachable_wellScheduled\<close>).
\<close>

theorem check_one_minute_after_merge:
  assumes "wellScheduled m" and "findScheduledIndex (scheduled m) n = int i"
    and "PreMergeCommentPosted (scheduled m ! i)"
    and "MergeTriggered (scheduled m ! i)"
    and "\<not> CheckScheduled (scheduled m ! i)"
    and "0 < now m"
    and "\<forall>x\<in>set xs. beforeDue (now m + 60 * Second) n x"
    and "now m + 60 * Second < t"
  shows "\<exists>m1 m2 c2 m3 c3.
      Update L (mergeResultMsg n None) m = Inr (m1, [])
    \<and> CheckAt (scheduled m1 ! i) = now m + 60 * Second
    \<and> run L xs m1 = Inr (m2, c2)
    \<and> (\<forall>c\<in>set c2. cmdPR c \<noteq> Some n)
    \<and> \<not> CheckScheduled (scheduled m2 ! i)
    \<and> Update L (tickMsg t) m2 = Inr (m3, c3)
    \<and> filter (\<lambda>c. cmdPR c = Some n) c3 = [checkMergedCmd n]
    \<and> CheckScheduled (scheduled m3 ! i)"
proof -
  from assms(2) have pos: "0 \<le> findScheduledIndex (scheduled m) n" by simp
  from findScheduledIndex_found[OF pos] assms(2)
  have i: "i < length (scheduled m)" and n: "Number (PR (scheduled m ! i)) = n"
    and nd: "\<not> Done (scheduled m ! i)" by simp_all
  define s1 where
    "s1 = (scheduled m ! i)\<lparr>CheckAt := now m + 60 * Second,
                             LastMessage := ''Auto-merge set, will check in 1 minute''\<rparr>"
  define m1 where
    "m1 = m\<lparr>scheduled := (scheduled m)[i := s1],
            status := ''PR #'' @ Itoa n @ '': auto-merge set; check at ''
                        @ time_Format L RFC3339 (now m + 60 * Second)\<rparr>"
  have u: "Update L (mergeResultMsg n None) m = Inr (m1, [])"
    using pos assms(2)
    by (simp add: updateMergeResult_def Let_def updateAt_def Add_def Minute_def m1_def s1_def)
  from Update_wellScheduled[OF assms(1) u] have w1: "wellScheduled m1" .
  have i1: "i < length (scheduled m1)" and e1: "scheduled m1 ! i = s1"
    using i by (simp_all add: m1_def)
  have nd1: "\<not> Done s1" and n1: "Number (PR s1) = n" and c1: "CheckAt s1 = now m + 60 * Second"
    using nd n by (simp_all add: s1_def)
  have quiet: "\<And>t'. t' \<le> now m + 60 * Second \<Longrightarrow> snd (tickEntry L t' s1) = []"
    using nd assms(3) by (simp add: s1_def tickEntry_def After_def Let_def)
  have w: "\<forall>x\<in>set xs. waiting L (Number (PR s1)) s1 x"
    using assms(7) beforeDue_waiting[OF _ quiet] by (auto simp: n1)
  have same: "sameButMessage s1 (scheduled m1 ! i)" by (simp add: e1 sameButMessage_refl)
  from run_waiting[OF w1 i1 same nd1 w] obtain m2 c2 where
    r: "run L xs m1 = Inr (m2, c2)" "wellScheduled m2" "i < length (scheduled m2)"
      "sameButMessage s1 (scheduled m2 ! i)" "\<forall>c'\<in>set c2. cmdPR c' \<noteq> Some (Number (PR s1))"
    by blast
  note f = sameButMessage_fields[OF r(4)]
  from f nd1 have nd2: "\<not> Done (scheduled m2 ! i)" by simp
  from tick_step[OF r(2,3) nd2, of L t] obtain m3 c3 where
    t: "Update L (tickMsg t) m2 = Inr (m3, c3)"
      "scheduled m3 ! i = fst (tickEntry L t (scheduled m2 ! i))"
      "filter (\<lambda>c. cmdPR c = Some (Number (PR (scheduled m2 ! i)))) c3
         = snd (tickEntry L t (scheduled m2 ! i))"
    by blast
  have nz: "\<not> IsZero (now m + 60 * Second)"
    using assms(6) by (simp add: IsZero_def Second_def)
  have fire: "snd (tickEntry L t s1) = [checkMergedCmd n]"
    using nd n assms(3,4,5,8) nz by (simp add: s1_def tickEntry_def After_def Let_def)
  have sched: "CheckScheduled (fst (tickEntry L t (scheduled m2 ! i)))"
    using f nd1 c1 assms(3,4,8) nz
    by (simp add: s1_def tickEntry_def After_def Let_def)
  have ns: "\<not> CheckScheduled (scheduled m2 ! i)"
    using f assms(5) by (simp add: s1_def)
  from t(3) tickEntry_sameButMessage[OF r(4), of L t] fire f n1
  have "filter (\<lambda>c. cmdPR c = Some n) c3 = [checkMergedCmd n]" by simp
  with u e1 c1 r(1,5) n1 ns t(1,2) sched show ?thesis by auto
qed

theorem check_one_minute_after_merge_witness:
  "wellScheduled demoMergeIssued
   \<and> findScheduledIndex (scheduled demoMergeIssued) 7 = 0
   \<and> PreMergeCommentPosted (scheduled demoMergeIssued ! 0)
   \<and> MergeTriggered (scheduled demoMergeIssued ! 0)
   \<and> \<not> CheckScheduled (scheduled demoMergeIssued ! 0)
   \<and> now demoMergeIssued = 2000
   \<and> list_all (beforeDue (2000 + 60 * Second) 7) demoMinute
   \<and> (\<exists>m1 m2 c2 m3 c3.
        Update demoLib (mergeResultMsg 7 None) demoMergeIssued = Inr (m1, [])
      \<and> CheckAt (scheduled m1 ! 0) = 60000002000
      \<and> run demoLib demoMinute m1 = Inr (m2, c2)
      \<and> filter (\<lambda>c. cmdPR c = Some 7) c2 = []
      \<and> Update demoLib (tickMsg 60000002001) m2 = Inr (m3, c3)
      \<and> filter (\<lambda>c. cmdPR c = Some 7) c3 = [checkMergedCmd 7])"
proof -
  have h: "wellScheduled demoMergeIssued"
    "findScheduledIndex (scheduled demoMergeIssued) 7 = int 0"
    "PreMergeCommentPosted (scheduled demoMergeIssued ! 0)"
    "MergeTriggered (scheduled demoMergeIssued ! 0)"
    "\<not> CheckScheduled (scheduled demoMergeIssued ! 0)"
    by code_simp+
  have e: "now demoMergeIssued = 2000" by code_simp
  have p: "0 < now demoMergeIssued" by (simp add: e)
  have b: "list_all (beforeDue (2000 + 60 * Second) 7) demoMinute" by code_simp
  then have b': "\<forall>x\<in>set demoMinute. beforeDue (now demoMergeIssued + 60 * Second) 7 x"
    by (simp add: e list_all_iff)
  have lt: "now demoMergeIssued + 60 * Second < 60000002001" by (simp add: e Second_def)
  from check_one_minute_after_merge[OF h p b' lt, of demoLib]
  have "\<exists>m1 m2 c2 m3 c3.
        Update demoLib (mergeResultMsg 7 None) demoMergeIssued = Inr (m1, [])
      \<and> CheckAt (scheduled m1 ! 0) = 60000002000
      \<and> run demoLib demoMinute m1 = Inr (m2, c2)
      \<and> filter (\<lambda>c. cmdPR c = Some 7) c2 = []
      \<and> Update demoLib (tickMsg 60000002001) m2 = Inr (m3, c3)
      \<and> filter (\<lambda>c. cmdPR c = Some 7) c3 = [checkMergedCmd 7]"
    unfolding e by (fastforce simp: filter_empty_conv Second_def)
  with h e b show ?thesis by simp
qed

subsection \<open>C5: a failed merge trigger or state check is terminal\<close>

text \<open>
  Claim C5. When the merge trigger or the state check fails for the active entry of a PR,
  the step marks the entry \<open>Done\<close>, records the failure message and issues no command; every
  other field of the entry, \<open>CheckAt\<close> among them, is as before. From then on the entry never
  changes, whatever messages arrive (\<open>xs\<close>): \<open>CheckAt\<close> is not set, and the flags
  \<open>CheckScheduled\<close> and \<open>FailureHandled\<close>, which the program sets when it issues a check or a
  remediation for an entry, stay as they were. And while the user schedules nothing new
  (\<open>ys\<close>: ticks and results of actions, in any number and order), no command at all is
  addressed to the PR: no state check, no commit fetch, no disabling, no comment. The
  notification is sent only by the step that issues the disabling and the failure comment,
  so it is not sent either. The model satisfies the invariant of the registry,
  \<open>wellScheduled\<close>, as every reachable state does (lemma \<open>reachable_wellScheduled\<close>).
\<close>

theorem failed_merge_or_check_is_terminal:
  assumes "wellScheduled m" and "findScheduledIndex (scheduled m) n = int i"
    and "x = mergeResultMsg n (Some e) \<or> x = checkMergedMsg n merged (Some e)"
    and "\<forall>y\<in>set ys. \<not> isKeyMsg y"
  shows "\<exists>m1 m2 c2 m3 c3.
      Update L x m = Inr (m1, [])
    \<and> scheduled m1 ! i =
        (scheduled m ! i)
          \<lparr>Done := True,
           LastMessage := (if x = mergeResultMsg n (Some e) then ''Auto-merge failed: '' @ e
                           else ''Check failed: '' @ e)\<rparr>
    \<and> Done (scheduled m1 ! i)
    \<and> CheckAt (scheduled m1 ! i) = CheckAt (scheduled m ! i)
    \<and> run L xs m1 = Inr (m2, c2)
    \<and> scheduled m2 ! i = scheduled m1 ! i
    \<and> run L ys m1 = Inr (m3, c3)
    \<and> (\<forall>c\<in>set c3. cmdPR c \<noteq> Some n)"
proof -
  from assms(2) have pos: "0 \<le> findScheduledIndex (scheduled m) n" by simp
  from findScheduledIndex_found[OF pos] assms(2)
  have i: "i < length (scheduled m)" and n: "Number (PR (scheduled m ! i)) = n"
    and nd: "\<not> Done (scheduled m ! i)" by simp_all
  define s1 where
    "s1 = (scheduled m ! i)
          \<lparr>Done := True,
           LastMessage := (if x = mergeResultMsg n (Some e) then ''Auto-merge failed: '' @ e
                           else ''Check failed: '' @ e)\<rparr>"
  obtain m1 where u: "Update L x m = Inr (m1, [])" and e1: "scheduled m1 = (scheduled m)[i := s1]"
    using assms(3) pos assms(2)
    by (auto simp: updateMergeResult_def updateCheckMerged_def Let_def updateAt_def s1_def)
  from Update_wellScheduled[OF assms(1) u] have w1: "wellScheduled m1" .
  from assms(1) have d: "distinct (activeNumbers (scheduled m))" by (simp add: wellScheduled_def)
  have ds: "Done s1" by (simp add: s1_def)
  from done_removes_active[OF d i nd ds] n e1
  have na: "n \<notin> set (activeNumbers (scheduled m1))" by simp
  have at: "scheduled m1 ! i = s1" and i1: "i < length (scheduled m1)"
    using i e1 by simp_all
  from run_total[OF w1, of L xs] obtain m2 c2 where
    r2: "run L xs m1 = Inr (m2, c2)" "grows (scheduled m1) (scheduled m2)" by blast
  from r2(2) i1 at ds have fin: "scheduled m2 ! i = scheduled m1 ! i"
    by (auto simp: grows_def advances_def)
  from run_no_active[OF assms(4) na, of L] obtain m3 c3 where
    r3: "run L ys m1 = Inr (m3, c3)" "\<forall>c'\<in>set c3. cmdPR c' \<noteq> Some n" by blast
  from u at r2(1) fin r3 show ?thesis by (auto simp: s1_def)
qed

theorem failed_merge_or_check_is_terminal_witness:
  "wellScheduled demoMergeIssued
   \<and> findScheduledIndex (scheduled demoMergeIssued) 7 = 0
   \<and> list_all (\<lambda>y. \<not> isKeyMsg y) demoEngineLater
   \<and> (\<exists>m1 m2 c2 m3 c3.
        Update demoLib (mergeResultMsg 7 (Some ''gh pr merge failed'')) demoMergeIssued = Inr (m1, [])
      \<and> Done (scheduled m1 ! 0)
      \<and> LastMessage (scheduled m1 ! 0) = ''Auto-merge failed: gh pr merge failed''
      \<and> CheckAt (scheduled m1 ! 0) = CheckAt (scheduled demoMergeIssued ! 0)
      \<and> run demoLib demoLater m1 = Inr (m2, c2)
      \<and> scheduled m2 ! 0 = scheduled m1 ! 0
      \<and> run demoLib demoEngineLater m1 = Inr (m3, c3)
      \<and> filter (\<lambda>c. cmdPR c = Some 7) c3 = [])
   \<and> (\<exists>m1 m3 c3.
        Update demoLib (checkMergedMsg 7 False (Some ''gh pr view failed'')) demoMergeIssued = Inr (m1, [])
      \<and> Done (scheduled m1 ! 0)
      \<and> LastMessage (scheduled m1 ! 0) = ''Check failed: gh pr view failed''
      \<and> run demoLib demoEngineLater m1 = Inr (m3, c3)
      \<and> filter (\<lambda>c. cmdPR c = Some 7) c3 = [])"
proof -
  have h: "wellScheduled demoMergeIssued"
    "findScheduledIndex (scheduled demoMergeIssued) 7 = int 0"
    by code_simp+
  have k: "list_all (\<lambda>y. \<not> isKeyMsg y) demoEngineLater" by code_simp
  then have k': "\<forall>y\<in>set demoEngineLater. \<not> isKeyMsg y" by (simp add: list_all_iff)
  from failed_merge_or_check_is_terminal[OF h _ k',
      where x = "mergeResultMsg 7 (Some ''gh pr merge failed'')" and e = "''gh pr merge failed''"
        and L = demoLib and xs = demoLater]
  have a: "\<exists>m1 m2 c2 m3 c3.
        Update demoLib (mergeResultMsg 7 (Some ''gh pr merge failed'')) demoMergeIssued = Inr (m1, [])
      \<and> Done (scheduled m1 ! 0)
      \<and> LastMessage (scheduled m1 ! 0) = ''Auto-merge failed: gh pr merge failed''
      \<and> CheckAt (scheduled m1 ! 0) = CheckAt (scheduled demoMergeIssued ! 0)
      \<and> run demoLib demoLater m1 = Inr (m2, c2)
      \<and> scheduled m2 ! 0 = scheduled m1 ! 0
      \<and> run demoLib demoEngineLater m1 = Inr (m3, c3)
      \<and> filter (\<lambda>c. cmdPR c = Some 7) c3 = []"
    by (fastforce simp: filter_empty_conv)
  from failed_merge_or_check_is_terminal[OF h _ k',
      where x = "checkMergedMsg 7 False (Some ''gh pr view failed'')" and e = "''gh pr view failed''"
        and merged = False and L = demoLib and xs = "[]"]
  have b: "\<exists>m1 m3 c3.
        Update demoLib (checkMergedMsg 7 False (Some ''gh pr view failed'')) demoMergeIssued = Inr (m1, [])
      \<and> Done (scheduled m1 ! 0)
      \<and> LastMessage (scheduled m1 ! 0) = ''Check failed: gh pr view failed''
      \<and> run demoLib demoEngineLater m1 = Inr (m3, c3)
      \<and> filter (\<lambda>c. cmdPR c = Some 7) c3 = []"
    by (fastforce simp: filter_empty_conv)
  from h k a b show ?thesis by simp
qed

subsection \<open>C2: a PR that is not merged reaches Done through the remediation\<close>

text \<open>
  Claim C2. Take the active entry of a PR whose state check reports that the PR is not
  merged. The program fetches the commit SHA; when that result arrives (with a SHA or with
  an error) it issues the disabling of auto-merge and the failure comment; when the result
  of the failure comment arrives, the entry is \<open>Done\<close>, with \<open>FailureHandled\<close> set, and its
  \<open>LastMessage\<close> is the one that \<open>remediationMessage\<close> gives for the result of the comment.
  This holds whatever else arrives in between (\<open>xs1\<close>, \<open>xs2\<close>: ticks, keys, results for other
  PRs, and the result of the disabling, failed or not) and afterwards (\<open>xs3\<close>: any messages,
  the late result of the disabling among them): the result of the disabling does not enter
  the final state of the entry. Second part: the handler of the result of the disabling,
  in any model, issues nothing and changes the \<open>Done\<close> flag of no entry. The model satisfies
  the invariant of the registry,
  \<open>wellScheduled\<close>, as every reachable state does (lemma \<open>reachable_wellScheduled\<close>).
\<close>

theorem not_merged_reaches_done:
  assumes "wellScheduled m" and "findScheduledIndex (scheduled m) n = int i"
    and "\<forall>x\<in>set xs1. unrelated n x" and "\<forall>x\<in>set xs2. unrelated n x"
  shows "(\<exists>m' c.
        run L ([checkMergedMsg n False None] @ xs1 @ [commitSHAMsg n sha shaErr] @ xs2
                @ [commentResultMsg n False commentErr] @ xs3) m = Inr (m', c)
      \<and> Done (scheduled m' ! i)
      \<and> FailureHandled (scheduled m' ! i)
      \<and> LastMessage (scheduled m' ! i) = remediationMessage commentErr
      \<and> getCommitSHACmd n \<in> set c
      \<and> disableAutoMergeCmd n \<in> set c
      \<and> commentPRCmd n (failureComment (case shaErr of Some e \<Rightarrow> ''unknown'' | None \<Rightarrow> sha)) False
          \<in> set c)
    \<and> (\<exists>m0'. Update L (disableAutoMergeResultMsg k disableErr) m0 = Inr (m0', [])
          \<and> map Done (scheduled m0') = map Done (scheduled m0))"
proof
  from assms(2) have pos: "0 \<le> findScheduledIndex (scheduled m) n" by simp
  from findScheduledIndex_found[OF pos] assms(2)
  have i: "i < length (scheduled m)" and n: "Number (PR (scheduled m ! i)) = n"
    and nd: "\<not> Done (scheduled m ! i)" by simp_all
  \<comment> \<open>the state check reports not merged\<close>
  obtain ma where ua: "Update L (checkMergedMsg n False None) m = Inr (ma, [getCommitSHACmd n])"
    and ea: "scheduled ma = (scheduled m)
               [i := (scheduled m ! i)\<lparr>LastMessage := ''PR not merged, fetching commit SHA...''\<rparr>]"
    using pos assms(2) by (simp add: updateCheckMerged_def Let_def updateAt_def)
  from Update_wellScheduled[OF assms(1) ua] have wa: "wellScheduled ma" .
  from ea i nd n have ia: "i < length (scheduled ma)" and nda: "\<not> Done (scheduled ma ! i)"
    and na: "Number (PR (scheduled ma ! i)) = n" by simp_all
  \<comment> \<open>other messages, until the commit SHA arrives\<close>
  from assms(3) na have "\<forall>x\<in>set xs1. unrelated (Number (PR (scheduled ma ! i))) x" by simp
  from run_unrelated[OF wa ia nda this, of L] obtain mb cb where
    rb: "run L xs1 ma = Inr (mb, cb)" and wb: "wellScheduled mb" and ib: "i < length (scheduled mb)"
    and ndb: "\<not> Done (scheduled mb ! i)" and ab: "advances (scheduled ma ! i) (scheduled mb ! i)"
    by blast
  from ab na have nb: "Number (PR (scheduled mb ! i)) = n" by (simp add: advances_def)
  from active_entry_found[OF wb ib ndb] nb
  have fb: "findScheduledIndex (scheduled mb) n = int i" by simp
  define shaText where "shaText = (case shaErr of Some e \<Rightarrow> ''unknown'' | None \<Rightarrow> sha)"
  obtain mc cc where uc: "Update L (commitSHAMsg n sha shaErr) mb = Inr (mc, cc)"
    and cc: "disableAutoMergeCmd n \<in> set cc" "commentPRCmd n (failureComment shaText) False \<in> set cc"
    and ec: "scheduled mc = (scheduled mb)
               [i := (scheduled mb ! i)
                  \<lparr>FailureHandled := True,
                   LastMessage := ''Disabling auto-merge and posting failure comment...''\<rparr>]"
    using fb by (simp add: updateCommitSHA_def Let_def updateAt_def shaText_def)
  from Update_wellScheduled[OF wb uc] have wc: "wellScheduled mc" .
  from ec ib ndb nb have ic: "i < length (scheduled mc)" and ndc: "\<not> Done (scheduled mc ! i)"
    and nc: "Number (PR (scheduled mc ! i)) = n" and fhc: "FailureHandled (scheduled mc ! i)"
    by simp_all
  \<comment> \<open>other messages, until the result of the failure comment arrives\<close>
  from assms(4) nc have "\<forall>x\<in>set xs2. unrelated (Number (PR (scheduled mc ! i))) x" by simp
  from run_unrelated[OF wc ic ndc this, of L] obtain md cd where
    rd: "run L xs2 mc = Inr (md, cd)" and wd: "wellScheduled md" and idd: "i < length (scheduled md)"
    and ndd: "\<not> Done (scheduled md ! i)" and ad: "advances (scheduled mc ! i) (scheduled md ! i)"
    by blast
  from ad nc fhc have nd': "Number (PR (scheduled md ! i)) = n"
    and fhd: "FailureHandled (scheduled md ! i)" by (simp_all add: advances_def)
  from active_entry_found[OF wd idd ndd] nd'
  have fd: "findScheduledIndex (scheduled md) n = int i" by simp
  obtain me where ue: "Update L (commentResultMsg n False commentErr) md = Inr (me, [])"
    and ee: "scheduled me = (scheduled md)
               [i := (scheduled md ! i)\<lparr>Done := True, LastMessage := remediationMessage commentErr\<rparr>]"
    using fd
    by (cases commentErr) (simp_all add: updateCommentResult_def Let_def updateAt_def remediationMessage_def)
  from Update_wellScheduled[OF wd ue] have we: "wellScheduled me" .
  from ee idd fhd have ie: "i < length (scheduled me)" and de: "Done (scheduled me ! i)"
    and fhe: "FailureHandled (scheduled me ! i)"
    and le: "LastMessage (scheduled me ! i) = remediationMessage commentErr" by simp_all
  \<comment> \<open>whatever arrives later\<close>
  from run_total[OF we, of L xs3] obtain mf cf where
    rf: "run L xs3 me = Inr (mf, cf)" and gf: "grows (scheduled me) (scheduled mf)" by blast
  from gf ie de have same: "scheduled mf ! i = scheduled me ! i"
    by (auto simp: grows_def advances_def)
  from run_append[OF run_single[OF ue] rf]
  have r1: "run L ([commentResultMsg n False commentErr] @ xs3) md = Inr (mf, [] @ cf)" .
  from run_append[OF rd r1]
  have r2: "run L (xs2 @ [commentResultMsg n False commentErr] @ xs3) mc = Inr (mf, cd @ [] @ cf)" .
  from run_append[OF run_single[OF uc] r2]
  have r3: "run L ([commitSHAMsg n sha shaErr] @ xs2 @ [commentResultMsg n False commentErr] @ xs3) mb
              = Inr (mf, cc @ cd @ [] @ cf)" .
  from run_append[OF rb r3]
  have r4: "run L (xs1 @ [commitSHAMsg n sha shaErr] @ xs2 @ [commentResultMsg n False commentErr] @ xs3) ma
              = Inr (mf, cb @ cc @ cd @ [] @ cf)" .
  from run_append[OF run_single[OF ua] r4]
  have r5: "run L ([checkMergedMsg n False None] @ xs1 @ [commitSHAMsg n sha shaErr] @ xs2
                @ [commentResultMsg n False commentErr] @ xs3) m
              = Inr (mf, [getCommitSHACmd n] @ cb @ cc @ cd @ [] @ cf)" .
  from r5 same de fhe le cc
  show "\<exists>m' c.
        run L ([checkMergedMsg n False None] @ xs1 @ [commitSHAMsg n sha shaErr] @ xs2
                @ [commentResultMsg n False commentErr] @ xs3) m = Inr (m', c)
      \<and> Done (scheduled m' ! i)
      \<and> FailureHandled (scheduled m' ! i)
      \<and> LastMessage (scheduled m' ! i) = remediationMessage commentErr
      \<and> getCommitSHACmd n \<in> set c
      \<and> disableAutoMergeCmd n \<in> set c
      \<and> commentPRCmd n (failureComment (case shaErr of Some e \<Rightarrow> ''unknown'' | None \<Rightarrow> sha)) False
          \<in> set c"
    unfolding shaText_def by (intro exI[of _ mf] exI[of _ "[getCommitSHACmd n] @ cb @ cc @ cd @ [] @ cf"]) simp
next
  have "\<exists>r. Update L (disableAutoMergeResultMsg k disableErr) m0 = Inr r" by simp
  then obtain m0' c0 where u0: "Update L (disableAutoMergeResultMsg k disableErr) m0 = Inr (m0', c0)"
    by (metis surj_pair)
  from disable_step[OF u0]
  have c0: "c0 = []" and l0: "length (scheduled m0') = length (scheduled m0)"
    and s0: "\<forall>j<length (scheduled m0). sameButMessage (scheduled m0 ! j) (scheduled m0' ! j)"
    by simp_all
  have "map Done (scheduled m0') = map Done (scheduled m0)"
  proof (rule nth_equalityI)
    show "length (map Done (scheduled m0')) = length (map Done (scheduled m0))" using l0 by simp
  next
    fix j assume "j < length (map Done (scheduled m0'))"
    with l0 have j: "j < length (scheduled m0)" by simp
    from s0 j sameButMessage_fields[of "scheduled m0 ! j" "scheduled m0' ! j"]
    have "Done (scheduled m0' ! j) = Done (scheduled m0 ! j)" by simp
    with j l0 show "map Done (scheduled m0') ! j = map Done (scheduled m0) ! j" by simp
  qed
  with u0 c0
  show "\<exists>m0'. Update L (disableAutoMergeResultMsg k disableErr) m0 = Inr (m0', [])
          \<and> map Done (scheduled m0') = map Done (scheduled m0)" by simp
qed

theorem not_merged_reaches_done_witness:
  "wellScheduled demoCheckIssued
   \<and> findScheduledIndex (scheduled demoCheckIssued) 7 = 0
   \<and> list_all (unrelated 7) [tickMsg 60000003000]
   \<and> list_all (unrelated 7) demoBetween
   \<and> (\<exists>m' c.
        run demoLib ([checkMergedMsg 7 False None] @ [tickMsg 60000003000]
                      @ [commitSHAMsg 7 ''abc'' None] @ demoBetween
                      @ [commentResultMsg 7 False (Some ''gh pr comment failed'')] @ [])
          demoCheckIssued = Inr (m', c)
      \<and> Done (scheduled m' ! 0)
      \<and> LastMessage (scheduled m' ! 0) = ''PR not merged (failure comment failed: gh pr comment failed)'')
   \<and> (\<exists>m' c.
        run demoLib ([checkMergedMsg 7 False None] @ [] @ [commitSHAMsg 7 ''abc'' None] @ []
                      @ [commentResultMsg 7 False None]
                      @ [disableAutoMergeResultMsg 7 (Some ''gh failed'')])
          demoCheckIssued = Inr (m', c)
      \<and> Done (scheduled m' ! 0)
      \<and> LastMessage (scheduled m' ! 0) = ''PR not merged (auto-merge disabled, notification sent)'')"
proof -
  have h: "wellScheduled demoCheckIssued"
    "findScheduledIndex (scheduled demoCheckIssued) 7 = int 0"
    by code_simp+
  have u: "list_all (unrelated 7) [tickMsg 60000003000]" "list_all (unrelated 7) demoBetween"
    by code_simp+
  then have u': "\<forall>x\<in>set [tickMsg 60000003000]. unrelated 7 x" "\<forall>x\<in>set demoBetween. unrelated 7 x"
    by (simp_all add: list_all_iff)
  have e: "\<forall>x\<in>set []. unrelated 7 x" by simp
  from not_merged_reaches_done[OF h u', where L = demoLib and sha = "''abc''" and shaErr = None
      and commentErr = "Some ''gh pr comment failed''" and ?xs3.0 = "[]", THEN conjunct1]
  obtain ma ca where
    "run demoLib ([checkMergedMsg 7 False None] @ [tickMsg 60000003000]
                      @ [commitSHAMsg 7 ''abc'' None] @ demoBetween
                      @ [commentResultMsg 7 False (Some ''gh pr comment failed'')] @ [])
          demoCheckIssued = Inr (ma, ca)"
    "Done (scheduled ma ! 0)"
    "LastMessage (scheduled ma ! 0) = remediationMessage (Some ''gh pr comment failed'')"
    by blast
  then have a: "\<exists>m' c.
        run demoLib ([checkMergedMsg 7 False None] @ [tickMsg 60000003000]
                      @ [commitSHAMsg 7 ''abc'' None] @ demoBetween
                      @ [commentResultMsg 7 False (Some ''gh pr comment failed'')] @ [])
          demoCheckIssued = Inr (m', c)
      \<and> Done (scheduled m' ! 0)
      \<and> LastMessage (scheduled m' ! 0) = ''PR not merged (failure comment failed: gh pr comment failed)''"
    unfolding remediationMessage_def by (intro exI[of _ ma] exI[of _ ca]) simp
  from not_merged_reaches_done[OF h e e, where L = demoLib and sha = "''abc''" and shaErr = None
      and commentErr = None and ?xs3.0 = "[disableAutoMergeResultMsg 7 (Some ''gh failed'')]",
      THEN conjunct1]
  obtain mb cb where
    "run demoLib ([checkMergedMsg 7 False None] @ [] @ [commitSHAMsg 7 ''abc'' None] @ []
                      @ [commentResultMsg 7 False None]
                      @ [disableAutoMergeResultMsg 7 (Some ''gh failed'')])
          demoCheckIssued = Inr (mb, cb)"
    "Done (scheduled mb ! 0)"
    "LastMessage (scheduled mb ! 0) = remediationMessage None"
    by blast
  then have b: "\<exists>m' c.
        run demoLib ([checkMergedMsg 7 False None] @ [] @ [commitSHAMsg 7 ''abc'' None] @ []
                      @ [commentResultMsg 7 False None]
                      @ [disableAutoMergeResultMsg 7 (Some ''gh failed'')])
          demoCheckIssued = Inr (m', c)
      \<and> Done (scheduled m' ! 0)
      \<and> LastMessage (scheduled m' ! 0) = ''PR not merged (auto-merge disabled, notification sent)''"
    unfolding remediationMessage_def by (intro exI[of _ mb] exI[of _ cb]) simp
  from h u a b show ?thesis by simp
qed

subsection \<open>C8: a failed fetch of the commit SHA does not stop the remediation\<close>

text \<open>
  Claim C8, as stated, fails in its last part: the message the entry ends with does not
  refer to the commit. For PR 7, whose state check reports that it is not merged, whose
  commit fetch fails and whose failure comment succeeds, the entry is \<open>Done\<close> with the
  message \<open>PR not merged (auto-merge disabled, notification sent)\<close>, in which \<open>unknown\<close> does
  not occur; the commands addressed to the PR are the commit fetch, the disabling and the
  failure comment, and it is the body of that comment that names the \<open>unknown\<close> commit.
\<close>

theorem unknown_commit_not_in_entry_message:
  "Done (scheduled demoRemediated ! 0)
   \<and> LastMessage (scheduled demoRemediated ! 0) = ''PR not merged (auto-merge disabled, notification sent)''
   \<and> \<not> Contains ''unknown'' (LastMessage (scheduled demoRemediated ! 0))
   \<and> filter (\<lambda>c. cmdPR c = Some 7) (cmdsOfRun demoLib demoRemediate demoCheckIssued)
       = [getCommitSHACmd 7, disableAutoMergeCmd 7, commentPRCmd 7 (failureComment ''unknown'') False]"
  by code_simp

text \<open>
  Claim C8, amended. When the fetch of the commit SHA fails for the active entry of a PR,
  the remediation goes on with \<open>unknown\<close> in place of the SHA: the step sends the
  notification and issues the disabling of auto-merge and the failure comment, whose body
  ends with \<open>Current commit: unknown\<close>; the entry gets \<open>FailureHandled\<close> and is not yet \<open>Done\<close>.
  When the failure comment then succeeds, the entry is \<open>Done\<close> and its message is
  \<open>PR not merged (auto-merge disabled, notification sent)\<close>.
\<close>

theorem failed_commit_fetch_substitutes_unknown:
  assumes "findScheduledIndex (scheduled m) n = int i"
  shows "\<exists>m1 m2.
      Update L (commitSHAMsg n sha (Some e)) m =
        Inr (m1, [notifySend ''PR not merged''
                    (''PR #'' @ Itoa n @ '' ('' @ Title (PR (scheduled m ! i))
                       @ '') is still not merged after auto-merge.''),
                  disableAutoMergeCmd n,
                  commentPRCmd n (failureComment ''unknown'') False])
    \<and> Contains ''unknown'' (failureComment ''unknown'')
    \<and> FailureHandled (scheduled m1 ! i)
    \<and> \<not> Done (scheduled m1 ! i)
    \<and> Update L (commentResultMsg n False None) m1 = Inr (m2, [])
    \<and> Done (scheduled m2 ! i)
    \<and> LastMessage (scheduled m2 ! i) = ''PR not merged (auto-merge disabled, notification sent)''"
proof -
  from assms have pos: "0 \<le> findScheduledIndex (scheduled m) n" by simp
  from findScheduledIndex_found[OF pos] assms
  have i: "i < length (scheduled m)" and nd: "\<not> Done (scheduled m ! i)" by simp_all
  define s1 where
    "s1 = (scheduled m ! i)
            \<lparr>FailureHandled := True,
             LastMessage := ''Disabling auto-merge and posting failure comment...''\<rparr>"
  obtain m1 where u1: "Update L (commitSHAMsg n sha (Some e)) m =
        Inr (m1, [notifySend ''PR not merged''
                    (''PR #'' @ Itoa n @ '' ('' @ Title (PR (scheduled m ! i))
                       @ '') is still not merged after auto-merge.''),
                  disableAutoMergeCmd n,
                  commentPRCmd n (failureComment ''unknown'') False])"
    and e1: "scheduled m1 = (scheduled m)[i := s1]"
    using pos assms by (simp add: updateCommitSHA_def Let_def updateAt_def s1_def)
  have f1: "findScheduledIndex (scheduled m1) n = int i"
    using findScheduledIndex_update[OF i, of s1 n] assms by (simp add: e1 s1_def)
  have at1: "scheduled m1 ! i = s1" and i1: "i < length (scheduled m1)" using i e1 by simp_all
  obtain m2 where u2: "Update L (commentResultMsg n False None) m1 = Inr (m2, [])"
    and e2: "scheduled m2 = (scheduled m1)
               [i := (scheduled m1 ! i)
                  \<lparr>Done := True,
                   LastMessage := ''PR not merged (auto-merge disabled, notification sent)''\<rparr>]"
    using f1 by (simp add: updateCommentResult_def Let_def updateAt_def)
  have c: "Contains ''unknown'' (failureComment ''unknown'')" by code_simp
  from u1 u2 e2 at1 i1 nd c show ?thesis by (auto simp: s1_def)
qed

theorem failed_commit_fetch_substitutes_unknown_witness:
  "findScheduledIndex (scheduled demoCheckIssued) 7 = 0
   \<and> (\<exists>m1 m2.
        Update demoLib (commitSHAMsg 7 [] (Some ''gh pr view failed'')) demoCheckIssued =
          Inr (m1, [notifySend ''PR not merged''
                      (''PR #'' @ Itoa 7 @ '' ('' @ Title (PR (scheduled demoCheckIssued ! 0))
                         @ '') is still not merged after auto-merge.''),
                    disableAutoMergeCmd 7,
                    commentPRCmd 7 (failureComment ''unknown'') False])
      \<and> Update demoLib (commentResultMsg 7 False None) m1 = Inr (m2, [])
      \<and> Done (scheduled m2 ! 0)
      \<and> LastMessage (scheduled m2 ! 0) = ''PR not merged (auto-merge disabled, notification sent)'')"
proof -
  have h: "findScheduledIndex (scheduled demoCheckIssued) 7 = int 0" by code_simp
  from failed_commit_fetch_substitutes_unknown[OF h, where L = demoLib and sha = "[]"
      and e = "''gh pr view failed''"]
  obtain m1 m2 where
    "Update demoLib (commitSHAMsg 7 [] (Some ''gh pr view failed'')) demoCheckIssued =
          Inr (m1, [notifySend ''PR not merged''
                      (''PR #'' @ Itoa 7 @ '' ('' @ Title (PR (scheduled demoCheckIssued ! 0))
                         @ '') is still not merged after auto-merge.''),
                    disableAutoMergeCmd 7,
                    commentPRCmd 7 (failureComment ''unknown'') False])"
    "Update demoLib (commentResultMsg 7 False None) m1 = Inr (m2, [])"
    "Done (scheduled m2 ! 0)"
    "LastMessage (scheduled m2 ! 0) = ''PR not merged (auto-merge disabled, notification sent)''"
    by blast
  with h show ?thesis by (intro conjI exI[of _ m1] exI[of _ m2]) simp_all
qed

end
